theory Spec2Isabelle
  imports
    Complex_Main
    "HOL-Library.Char_ord"
    "HOL-Library.List_Lexorder"
    "HOL-Library.Multiset"
begin

section \<open>JavaScript numbers\<close>

text \<open>
  A JavaScript Number is an IEEE 754 double. A finite double is modelled by the real number
  it denotes, next to the two infinities and \<open>NaN\<close>; the two zeros are one value (they
  differ only under division and \<open>Object.is\<close>, which the code modelled here does not use).
  An arithmetic operation yields the exact result rounded to the nearest double, a tie going
  to the even significand.

  \<open>round_half_even\<close> rounds a real to the nearest integer, a tie to the even one.
\<close>

definition round_half_even :: "real \<Rightarrow> int" where
  "round_half_even y =
     (let f = \<lfloor>y\<rfloor> in
      if y - of_int f < 1 / 2 then f
      else if 1 / 2 < y - of_int f then f + 1
      else if even f then f else f + 1)"

text \<open>
  The exponent \<open>e\<close> with \<open>2^e \<le> x < 2^(e+1)\<close> of a positive \<open>x\<close>, found by doubling or
  halving \<open>x\<close> at most \<open>n\<close> times.
\<close>

fun floor_log2 :: "nat \<Rightarrow> real \<Rightarrow> int" where
  "floor_log2 0 x = 0"
| "floor_log2 (Suc n) x =
     (if x < 1 then floor_log2 n (2 * x) - 1
      else if 2 \<le> x then floor_log2 n (x / 2) + 1
      else 0)"

text \<open>
  The exponent of the doubles around \<open>x\<close>: they are the multiples of \<open>2^(e-52)\<close>. Below
  \<open>2^(-1022)\<close> the exponent stays at -1022 (the subnormal numbers); 1100 steps reach every
  exponent of a finite double and of a sum of two.
\<close>

definition double_exponent :: "real \<Rightarrow> int" where
  "double_exponent x = max (floor_log2 1100 \<bar>x\<bar>) (- 1022)"

datatype jsnum = Fin real | PosInf | NegInf | NaN

text \<open>The double nearest to a real; from \<open>2^1024\<close> on the result is infinite.\<close>

definition round_double :: "real \<Rightarrow> jsnum" where
  "round_double x =
     (if x = 0 then Fin 0
      else
        let u = 2 powi (double_exponent x - 52);
            r = of_int (round_half_even (x / u)) * u
        in if 2 ^ 1024 \<le> r then PosInf
           else if r \<le> - (2 ^ 1024) then NegInf
           else Fin r)"

fun js_neg :: "jsnum \<Rightarrow> jsnum" where
  "js_neg (Fin a) = Fin (- a)"
| "js_neg PosInf = NegInf"
| "js_neg NegInf = PosInf"
| "js_neg NaN = NaN"

text \<open>The operators \<open>+\<close> and \<open>-\<close> on two Numbers.\<close>

fun js_add :: "jsnum \<Rightarrow> jsnum \<Rightarrow> jsnum" where
  "js_add (Fin a) (Fin b) = round_double (a + b)"
| "js_add NaN b = NaN"
| "js_add a NaN = NaN"
| "js_add PosInf NegInf = NaN"
| "js_add NegInf PosInf = NaN"
| "js_add PosInf b = PosInf"
| "js_add a PosInf = PosInf"
| "js_add NegInf b = NegInf"
| "js_add a NegInf = NegInf"

definition js_sub :: "jsnum \<Rightarrow> jsnum \<Rightarrow> jsnum" where
  "js_sub a b = js_add a (js_neg b)"

text \<open>The test \<open>v > 0\<close>.\<close>

fun js_positive :: "jsnum \<Rightarrow> bool" where
  "js_positive (Fin r) = (0 < r)"
| "js_positive PosInf = True"
| "js_positive NegInf = False"
| "js_positive NaN = False"

text \<open>A Number as it can occur: a finite one is a double.\<close>

fun is_double :: "jsnum \<Rightarrow> bool" where
  "is_double (Fin r) = (round_double r = Fin r)"
| "is_double v = True"

section \<open>JavaScript values\<close>

text \<open>
  The value found at a numeric field of a document: the field may be absent
  (\<open>undefined\<close>), \<open>null\<close>, or a Number.
\<close>

datatype jsval = Undefined | Null | Number jsnum

text \<open>\<open>ToNumber\<close>, applied by \<open>+\<close> to an operand that is not a Number.\<close>

fun ToNumber :: "jsval \<Rightarrow> jsnum" where
  "ToNumber Undefined = NaN"
| "ToNumber Null = Fin 0"
| "ToNumber (Number n) = n"

text \<open>\<open>ToBoolean\<close>: \<open>undefined\<close>, \<open>null\<close>, \<open>0\<close> and \<open>NaN\<close> are falsy.\<close>

fun truthy :: "jsval \<Rightarrow> bool" where
  "truthy Undefined = False"
| "truthy Null = False"
| "truthy (Number (Fin r)) = (r \<noteq> 0)"
| "truthy (Number NaN) = False"
| "truthy (Number v) = True"

text \<open>The operator \<open>a || b\<close>.\<close>

definition js_or :: "jsval \<Rightarrow> jsval \<Rightarrow> jsval" where
  "js_or a b = (if truthy a then a else b)"

section \<open>Data model\<close>

text \<open>
  The interfaces \<open>Product\<close>, \<open>Customer\<close>, \<open>DailyOrder\<close> and \<open>OrderItem\<close> are imported
  from \<open>../types\<close>; their fields are taken from the uses in the source and from the table
  definitions of the schema script. Every document carries \<open>id\<close> (here \<open>id'\<close>),
  \<open>user_id\<close> and \<open>created_at\<close>. A field name can belong to one record only, so \<open>name\<close>,
  \<open>quantity\<close>, \<open>unit\<close> and \<open>price\<close> are prefixed where a second record has them.

  \<open>created_at\<close> is a timestamp of the store, written by \<open>Timestamp.now()\<close>: the seconds
  since the Unix epoch and the nanoseconds within the second.
\<close>

record timestamp =
  seconds :: int
  nanoseconds :: int

record doc =
  id' :: string
  user_id :: string
  created_at :: timestamp

record product = doc +
  name :: string
  price :: real
  product_quantity :: real
  product_unit :: string
  photo :: "string option"

record customer = doc +
  cust_name :: string
  address :: string
  contact_number :: string

record order_item =
  product_id :: string
  product_name :: string
  quantity :: real
  item_unit :: string
  item_price :: real
  total :: real

datatype order_status = pending | delivered

text \<open>
  The two amounts of an order are kept as JavaScript values: the dashboard guards
  \<open>amount_paid\<close> against a falsy value and does not guard \<open>total_amount\<close>.
\<close>

record daily_order = doc +
  customer_id :: string
  customer_name :: string
  date :: string
  items :: "order_item list"
  total_amount :: jsval
  amount_paid :: jsval
  status :: order_status

section \<open>Dashboard totals\<close>

text \<open>
  \<open>orders.filter(order => order.date === today)\<close>; the current date is a parameter.
\<close>

definition todayOrders :: "string \<Rightarrow> daily_order list \<Rightarrow> daily_order list" where
  "todayOrders today orders = filter (\<lambda>order. date order = today) orders"

text \<open>
  \<open>todayOrders.reduce((sum, order) => sum + (order.amount_paid || 0), 0)\<close>
\<close>

definition totalCollectionToday :: "string \<Rightarrow> daily_order list \<Rightarrow> jsnum" where
  "totalCollectionToday today orders =
     foldl (\<lambda>sum order. js_add sum (ToNumber (js_or (amount_paid order) (Number (Fin 0)))))
       (Fin 0) (todayOrders today orders)"

text \<open>
  \<open>todayOrders.reduce((sum, order) => sum + order.total_amount, 0)\<close>
\<close>

definition totalAmountToday :: "string \<Rightarrow> daily_order list \<Rightarrow> jsnum" where
  "totalAmountToday today orders =
     foldl (\<lambda>sum order. js_add sum (ToNumber (total_amount order)))
       (Fin 0) (todayOrders today orders)"



text \<open>A field that holds a whole number.\<close>

definition whole :: "jsval \<Rightarrow> bool" where
  "whole v = (case v of Number (Fin r) \<Rightarrow> of_int \<lfloor>r\<rfloor> = r | _ \<Rightarrow> False)"

definition epoch :: timestamp where
  "epoch = \<lparr>seconds = 0, nanoseconds = 0\<rparr>"

text \<open>An order as the first example of the specification gives it.\<close>

definition example_order :: "string \<Rightarrow> real \<Rightarrow> real \<Rightarrow> daily_order" where
  "example_order i t p =
     \<lparr> id' = i, user_id = ''u1'', created_at = epoch,
       customer_id = ''c1'', customer_name = ''Asha'', date = ''2024-01-01'',
       items = [], total_amount = Number (Fin t), amount_paid = Number (Fin p),
       status = pending \<rparr>"

section \<open>Array sort\<close>

text \<open>
  \<open>Array.prototype.sort(compareFn)\<close> is a stable sort: an element \<open>a\<close> stays before a
  later element \<open>b\<close> unless \<open>compareFn(a, b) > 0\<close>. It is modelled by a stable insertion
  sort driven by the comparator; where the comparator orders the elements consistently,
  every stable sort returns the same list.
\<close>

fun sort_insert :: "('a \<Rightarrow> 'a \<Rightarrow> jsnum) \<Rightarrow> 'a \<Rightarrow> 'a list \<Rightarrow> 'a list" where
  "sort_insert cmp a [] = [a]"
| "sort_insert cmp a (b # bs) =
     (if js_positive (cmp a b) then b # sort_insert cmp a bs else a # b # bs)"

definition js_sort :: "('a \<Rightarrow> 'a \<Rightarrow> jsnum) \<Rightarrow> 'a list \<Rightarrow> 'a list" where
  "js_sort cmp xs = foldr (sort_insert cmp) xs []"

section \<open>Comparing timestamps and dates\<close>

text \<open>
  The source subtracts two timestamp objects. The operator converts each operand by its
  \<open>valueOf\<close> method and then to a Number. \<open>valueOf\<close> returns a string: the twelve digits
  of the seconds counted from the year 1 (\<open>seconds + 62135596800\<close>), a point, and the nine
  digits of the nanoseconds. The Number of that string is the double nearest to the decimal
  number it spells.
\<close>

definition valueOf_number :: "timestamp \<Rightarrow> real" where
  "valueOf_number t = of_int (seconds t + 62135596800) + of_int (nanoseconds t) / 10 ^ 9"

definition timestamp_number :: "timestamp \<Rightarrow> jsnum" where
  "timestamp_number t = round_double (valueOf_number t)"

text \<open>\<open>a.created_at - b.created_at\<close>\<close>

definition created_at_difference :: "'a doc_scheme \<Rightarrow> 'b doc_scheme \<Rightarrow> jsnum" where
  "created_at_difference a b =
     js_sub (timestamp_number (created_at a)) (timestamp_number (created_at b))"

text \<open>
  The time of a timestamp in seconds, exactly. A timestamp is valid when its seconds lie
  between the years 1 and 9999 and its nanoseconds within a second, as the constructor of
  the store's timestamps requires; \<open>Timestamp.now()\<close> yields a valid timestamp of whole
  milliseconds.
\<close>

definition instant :: "timestamp \<Rightarrow> real" where
  "instant t = of_int (seconds t) + of_int (nanoseconds t) / 10 ^ 9"

definition valid_timestamp :: "timestamp \<Rightarrow> bool" where
  "valid_timestamp t =
     (- 62135596800 \<le> seconds t \<and> seconds t < 253402300800
      \<and> 0 \<le> nanoseconds t \<and> nanoseconds t < 10 ^ 9)"

definition millisecond_timestamp :: "timestamp \<Rightarrow> bool" where
  "millisecond_timestamp t = (valid_timestamp t \<and> nanoseconds t mod 10 ^ 6 = 0)"

text \<open>
  \<open>s.localeCompare(t)\<close> compares two strings by the collation of the runtime's locale. The
  collation is a parameter of the model, a function that yields a finite number. On two
  dates written \<open>YYYY-MM-DD\<close> every collation orders digit by digit, as the comparison of
  the strings character by character does; \<open>date_collation\<close> says that of a collation.
\<close>

type_synonym collation = "string \<Rightarrow> string \<Rightarrow> real"

definition is_digit :: "char \<Rightarrow> bool" where
  "is_digit c = (c \<in> set ''0123456789'')"

definition is_date :: "string \<Rightarrow> bool" where
  "is_date s =
     (case s of
        [y1, y2, y3, y4, h1, m1, m2, h2, d1, d2] \<Rightarrow>
          list_all is_digit [y1, y2, y3, y4, m1, m2, d1, d2]
          \<and> h1 = CHR ''-'' \<and> h2 = CHR ''-''
      | _ \<Rightarrow> False)"

definition date_collation :: "collation \<Rightarrow> bool" where
  "date_collation collate =
     (\<forall>s t. is_date s \<and> is_date t \<longrightarrow>
        (collate s t < 0) = (s < t) \<and> (collate s t = 0) = (s = t))"

text \<open>The comparison of two strings character by character, with the results -1, 0, 1.\<close>

definition codepoint_compare :: collation where
  "codepoint_compare s t = (if s < t then - 1 else if s = t then 0 else 1)"

section \<open>Application state and the snapshot callbacks\<close>

record app_user =
  au_id :: string
  au_email :: string
  au_username :: string

record js_error =
  code :: "string option"
  error_message :: "string option"

record app_state =
  user :: "app_user option"
  authLoading :: bool
  products :: "product list"
  customers :: "customer list"
  orders :: "daily_order list"
  dataLoading :: bool
  error :: "string option"

text \<open>
  A snapshot is the list of the documents of a query, each already turned into
  \<open>{ id: d.id, ...d.data() }\<close>.

  \<open>setProducts(productsData.sort((a,b) => a.created_at - b.created_at))\<close>
\<close>

definition on_products_snapshot :: "product list \<Rightarrow> app_state \<Rightarrow> app_state" where
  "on_products_snapshot productsData st =
     st\<lparr>products := js_sort (\<lambda>a b. created_at_difference a b) productsData\<rparr>"

definition on_customers_snapshot :: "customer list \<Rightarrow> app_state \<Rightarrow> app_state" where
  "on_customers_snapshot customersData st =
     st\<lparr>customers := js_sort (\<lambda>a b. created_at_difference a b) customersData\<rparr>"

text \<open>
  \<open>(a,b) => b.date.localeCompare(a.date) || (b.created_at - a.created_at)\<close>
\<close>

definition orders_compare :: "collation \<Rightarrow> daily_order \<Rightarrow> daily_order \<Rightarrow> jsnum" where
  "orders_compare collate a b =
     (let c = collate (date b) (date a)
      in if c \<noteq> 0 then Fin c else created_at_difference b a)"

definition on_orders_snapshot ::
  "collation \<Rightarrow> daily_order list \<Rightarrow> app_state \<Rightarrow> app_state" where
  "on_orders_snapshot collate ordersData st =
     st\<lparr>orders := js_sort (orders_compare collate) ordersData, dataLoading := False\<rparr>"

text \<open>The error callbacks: \<open>setError(err.message)\<close>, and for the orders also
  \<open>setDataLoading(false)\<close>.\<close>

definition on_snapshot_error :: "js_error \<Rightarrow> app_state \<Rightarrow> app_state" where
  "on_snapshot_error err st = st\<lparr>error := error_message err\<rparr>"

definition on_orders_snapshot_error :: "js_error \<Rightarrow> app_state \<Rightarrow> app_state" where
  "on_orders_snapshot_error err st = st\<lparr>error := error_message err, dataLoading := False\<rparr>"

section \<open>The data subscription effect\<close>

datatype collection = Profiles | Products | Customers | Daily_orders

datatype where_clause = User_id_eq string | Customer_id_eq string

datatype query = Query collection "where_clause list"

text \<open>
  The effect that runs when \<open>user\<close> changes. It returns the new state and the queries
  it has subscribed to with \<open>onSnapshot\<close>.
\<close>

definition data_subscription_effect :: "app_state \<Rightarrow> app_state \<times> query list" where
  "data_subscription_effect st =
     (case user st of
        None \<Rightarrow>
          (st\<lparr>dataLoading := False, products := [], customers := [], orders := []\<rparr>, [])
      | Some u \<Rightarrow>
          (st\<lparr>dataLoading := True, error := None\<rparr>,
           [Query Products [User_id_eq (au_id u)],
            Query Customers [User_id_eq (au_id u)],
            Query Daily_orders [User_id_eq (au_id u)]]))"

section \<open>Authentication errors\<close>

text \<open>
  The \<open>switch\<close> on \<open>error.code\<close>; the default is
  \<open>error.message || 'An unknown error occurred.'\<close>, and a string is falsy when empty.
\<close>

definition handleAuthError :: "js_error \<Rightarrow> string" where
  "handleAuthError err =
     (if code err = Some ''auth/invalid-email'' then ''Invalid email format.''
      else if code err = Some ''auth/user-not-found''
            \<or> code err = Some ''auth/wrong-password''
            \<or> code err = Some ''auth/invalid-credential'' then ''Invalid login credentials''
      else if code err = Some ''auth/email-already-in-use''
        then ''An account with this email already exists.''
      else if code err = Some ''auth/weak-password''
        then ''Password should be at least 6 characters.''
      else (case error_message err of
              Some m \<Rightarrow> if m \<noteq> [] then m else ''An unknown error occurred.''
            | None \<Rightarrow> ''An unknown error occurred.''))"

text \<open>The fixed strings of the mapping.\<close>

definition fixed_messages :: "string list" where
  "fixed_messages =
     [''Invalid email format.'', ''Invalid login credentials'',
      ''An account with this email already exists.'',
      ''Password should be at least 6 characters.'', ''An unknown error occurred.'']"

definition recognized_codes :: "string list" where
  "recognized_codes =
     [''auth/invalid-email'', ''auth/user-not-found'', ''auth/wrong-password'',
      ''auth/invalid-credential'', ''auth/email-already-in-use'', ''auth/weak-password'']"

section \<open>The backend seen from the client\<close>

text \<open>
  The identity the authentication provider reports (\<open>uid\<close>, \<open>email\<close>,
  \<open>emailVerified\<close>) and the profile document written at registration.
\<close>

record firebase_user =
  uid :: string
  email :: "string option"
  emailVerified :: bool

record profile =
  username :: string
  profile_email :: string
  profile_created_at :: real

text \<open>
  The authentication provider and the store are outside the repository. What a call to
  them returns is a parameter of the model: for each call the error it throws, if any, and
  for the two calls that yield an identity, that identity. \<open>timestamp_now\<close> is the value
  of \<open>Timestamp.now()\<close>.
\<close>

record backend =
  signIn_outcome :: "js_error + firebase_user"
  createUser_outcome :: "js_error + firebase_user"
  sendEmailVerification_outcome :: "js_error option"
  setDoc_outcome :: "js_error option"
  signOut_outcome :: "js_error option"
  getDoc_outcome :: "js_error option"
  getDocs_outcome :: "js_error option"
  commit_outcome :: "js_error option"
  timestamp_now :: real

datatype write_op = Delete collection string

datatype backend_call =
    SignInWithEmailAndPassword string string
  | CreateUserWithEmailAndPassword string string
  | SendEmailVerification string
  | SetDoc collection string profile
  | SignOut
  | GetDocs query
  | Commit "write_op list"

text \<open>
  The client state together with the state of the backend: the signed-in identity
  (\<open>auth.currentUser\<close>), the four collections, and the log of the calls the operations
  below have issued, in order.
\<close>

record world =
  app :: app_state
  currentUser :: "firebase_user option"
  profile_docs :: "string \<rightharpoonup> profile"
  product_docs :: "product list"
  customer_docs :: "customer list"
  order_docs :: "daily_order list"
  calls :: "backend_call list"

definition issue :: "backend_call \<Rightarrow> world \<Rightarrow> world" where
  "issue c w = w\<lparr>calls := calls w @ [c]\<rparr>"

definition setAuthLoading :: "bool \<Rightarrow> world \<Rightarrow> world" where
  "setAuthLoading b w = w\<lparr>app := (app w)\<lparr>authLoading := b\<rparr>\<rparr>"

section \<open>Session manager\<close>

text \<open>\<open>s || ''\<close> for a string that may be \<open>null\<close>.\<close>

definition or_empty :: "string option \<Rightarrow> string" where
  "or_empty s = (case s of None \<Rightarrow> [] | Some t \<Rightarrow> t)"

text \<open>
  The handler registered with \<open>onAuthStateChanged\<close>. When \<open>getDoc\<close> throws, the handler
  ends there: neither \<open>setUser\<close> nor \<open>setAuthLoading(false)\<close> runs.
\<close>

definition auth_state_handler ::
  "backend \<Rightarrow> (string \<rightharpoonup> profile) \<Rightarrow> firebase_user option \<Rightarrow> app_state \<Rightarrow> app_state" where
  "auth_state_handler be profiles firebaseUser st0 =
     (let st = st0\<lparr>authLoading := True\<rparr> in
      case firebaseUser of
        None \<Rightarrow> st\<lparr>user := None, authLoading := False\<rparr>
      | Some fu \<Rightarrow>
          if emailVerified fu then
            (case getDoc_outcome be of
               Some e \<Rightarrow> st
             | None \<Rightarrow>
                 let uname = (case profiles (uid fu) of
                                Some p \<Rightarrow> Some (username p)
                              | None \<Rightarrow> email fu)
                 in st\<lparr>user := Some \<lparr>au_id = uid fu, au_email = or_empty (email fu),
                                       au_username = or_empty uname\<rparr>,
                        authLoading := False\<rparr>)
          else st\<lparr>user := None, authLoading := False\<rparr>)"

text \<open>
  The provider notifies the handler whenever the signed-in identity changes. A notification
  is run to its end at the call that causes it.
\<close>

definition notify :: "backend \<Rightarrow> world \<Rightarrow> world" where
  "notify be w = w\<lparr>app := auth_state_handler be (profile_docs w) (currentUser w) (app w)\<rparr>"

record outcome =
  success :: bool
  message :: "string option"

definition failure :: "string \<Rightarrow> outcome" where
  "failure m = \<lparr>success = False, message = Some m\<rparr>"

definition login :: "backend \<Rightarrow> string \<Rightarrow> string \<Rightarrow> world \<Rightarrow> outcome \<times> world" where
  "login be mail password w0 =
     (let w1 = issue (SignInWithEmailAndPassword mail password) (setAuthLoading True w0) in
      case signIn_outcome be of
        Inl e \<Rightarrow> (failure (handleAuthError e), setAuthLoading False w1)
      | Inr fu \<Rightarrow>
          let w2 = notify be (w1\<lparr>currentUser := Some fu\<rparr>) in
          if \<not> emailVerified fu then
            (let w3 = issue SignOut w2 in
             case signOut_outcome be of
               Some e \<Rightarrow> (failure (handleAuthError e), setAuthLoading False w3)
             | None \<Rightarrow>
                 (failure ''Email not confirmed'',
                  setAuthLoading False (notify be (w3\<lparr>currentUser := None\<rparr>))))
          else (\<lparr>success = True, message = None\<rparr>, setAuthLoading False w2))"

definition register ::
  "backend \<Rightarrow> string \<Rightarrow> string \<Rightarrow> string \<Rightarrow> world \<Rightarrow> outcome \<times> world" where
  "register be mail uname password w0 =
     (let w1 = issue (CreateUserWithEmailAndPassword mail password) (setAuthLoading True w0) in
      case createUser_outcome be of
        Inl e \<Rightarrow> (failure (handleAuthError e), setAuthLoading False w1)
      | Inr fu \<Rightarrow>
          let w2 = issue (SendEmailVerification (uid fu))
                     (notify be (w1\<lparr>currentUser := Some fu\<rparr>)) in
          (case sendEmailVerification_outcome be of
             Some e \<Rightarrow> (failure (handleAuthError e), setAuthLoading False w2)
           | None \<Rightarrow>
               let p = \<lparr>username = uname, profile_email = mail,
                        profile_created_at = timestamp_now be\<rparr>;
                   w3 = issue (SetDoc Profiles (uid fu) p) w2 in
               (case setDoc_outcome be of
                  Some e \<Rightarrow> (failure (handleAuthError e), setAuthLoading False w3)
                | None \<Rightarrow>
                    let w4 = issue SignOut
                               (w3\<lparr>profile_docs := (profile_docs w3)(uid fu \<mapsto> p)\<rparr>) in
                    (case signOut_outcome be of
                       Some e \<Rightarrow> (failure (handleAuthError e), setAuthLoading False w4)
                     | None \<Rightarrow>
                         (\<lparr>success = True, message = None\<rparr>,
                          setAuthLoading False (notify be (w4\<lparr>currentUser := None\<rparr>)))))))"

text \<open>
  The state exposes a user only while a verified identity is signed in.
\<close>

definition session_ok :: "world \<Rightarrow> bool" where
  "session_ok w =
     (case user (app w) of
        None \<Rightarrow> True
      | Some u \<Rightarrow> (case currentUser w of None \<Rightarrow> False | Some fu \<Rightarrow> emailVerified fu))"

section \<open>Deleting a customer\<close>

fun matches :: "where_clause \<Rightarrow> daily_order \<Rightarrow> bool" where
  "matches (User_id_eq v) d = (user_id d = v)"
| "matches (Customer_id_eq v) d = (customer_id d = v)"

text \<open>\<open>getDocs\<close> on a query over \<open>daily_orders\<close>: the documents that satisfy every clause.\<close>

definition getDocs :: "where_clause list \<Rightarrow> daily_order list \<Rightarrow> daily_order list" where
  "getDocs clauses docs = filter (\<lambda>d. list_all (\<lambda>c. matches c d) clauses) docs"

text \<open>A delete removes the document with the given id from the given collection.\<close>

fun apply_write :: "write_op \<Rightarrow> world \<Rightarrow> world" where
  "apply_write (Delete Profiles k) w = w\<lparr>profile_docs := (profile_docs w)(k := None)\<rparr>"
| "apply_write (Delete Products k) w =
     w\<lparr>product_docs := filter (\<lambda>d. id' d \<noteq> k) (product_docs w)\<rparr>"
| "apply_write (Delete Customers k) w =
     w\<lparr>customer_docs := filter (\<lambda>d. id' d \<noteq> k) (customer_docs w)\<rparr>"
| "apply_write (Delete Daily_orders k) w =
     w\<lparr>order_docs := filter (\<lambda>d. id' d \<noteq> k) (order_docs w)\<rparr>"

text \<open>
  \<open>batch.commit()\<close> is the store's atomic write: when it succeeds every write of the batch
  is applied, and when it throws none is.
\<close>

definition commit :: "backend \<Rightarrow> write_op list \<Rightarrow> world \<Rightarrow> (js_error + unit) \<times> world" where
  "commit be batch w =
     (case commit_outcome be of
        Some e \<Rightarrow> (Inl e, w)
      | None \<Rightarrow> (Inr (), foldl (\<lambda>v op. apply_write op v) w batch))"

definition deleteCustomer :: "backend \<Rightarrow> string \<Rightarrow> world \<Rightarrow> (js_error + unit) \<times> world" where
  "deleteCustomer be customerId w =
     (case user (app w) of
        None \<Rightarrow> (Inl \<lparr>code = None, error_message = Some ''User not authenticated''\<rparr>, w)
      | Some u \<Rightarrow>
          let clauses = [User_id_eq (au_id u), Customer_id_eq customerId];
              w1 = issue (GetDocs (Query Daily_orders clauses)) w in
          (case getDocs_outcome be of
             Some e \<Rightarrow> (Inl e, w1)
           | None \<Rightarrow>
               let ordersSnapshot = getDocs clauses (order_docs w1);
                   batch = map (\<lambda>d. Delete Daily_orders (id' d)) ordersSnapshot
                           @ [Delete Customers customerId]
               in commit be batch (issue (Commit batch) w1)))"

section \<open>The product summary of the dashboard\<close>

text \<open>
  \<open>summary\<close> is an object created by \<open>{}\<close>. Its own properties are kept in the order of
  their creation, each with the \<open>quantity\<close> of the object it holds. Reading
  \<open>summary[key]\<close> for a key that is not an own property finds the property that
  \<open>Object.prototype\<close> has under that key, if it has one; these are functions and objects,
  all truthy.
\<close>

type_synonym summary = "(string \<times> jsnum) list"

definition object_prototype_keys :: "string list" where
  "object_prototype_keys =
     [''constructor'', ''hasOwnProperty'', ''isPrototypeOf'', ''propertyIsEnumerable'',
      ''toLocaleString'', ''toString'', ''valueOf'', ''__proto__'',
      ''__defineGetter__'', ''__defineSetter__'', ''__lookupGetter__'', ''__lookupSetter__'']"

fun set_own :: "string \<Rightarrow> jsnum \<Rightarrow> summary \<Rightarrow> summary" where
  "set_own k v [] = [(k, v)]"
| "set_own k v (p # ps) = (if fst p = k then (k, v) # ps else p # set_own k v ps)"

text \<open>
  The body of the inner \<open>forEach\<close>:
  \<open>if (!summary[item.product_name]) { summary[item.product_name] = { quantity: 0 }; }
  summary[item.product_name].quantity += item.quantity;\<close>
  Under an inherited key the test finds a truthy value, no own property is created, and the
  addition writes \<open>quantity\<close> on the inherited object: \<open>summary\<close> keeps its own properties.
\<close>

definition tally_item :: "summary \<Rightarrow> order_item \<Rightarrow> summary" where
  "tally_item summary item =
     (case map_of summary (product_name item) of
        Some q \<Rightarrow> set_own (product_name item) (js_add q (Fin (quantity item))) summary
      | None \<Rightarrow>
          if product_name item \<in> set object_prototype_keys then summary
          else set_own (product_name item) (js_add (Fin 0) (Fin (quantity item))) summary)"

definition tally_orders :: "daily_order list \<Rightarrow> summary" where
  "tally_orders os = foldl (\<lambda>summary order. foldl tally_item summary (items order)) [] os"

text \<open>
  \<open>Object.entries\<close> lists the own properties: first the keys that are array indices
  (canonical decimal numerals below \<open>2^32 - 1\<close>) in ascending numeric order, then the
  other keys in the order of their creation.
\<close>

definition index_value :: "string \<Rightarrow> int" where
  "index_value s = foldl (\<lambda>n c. 10 * n + (of_char c - 48)) 0 s"

definition is_array_index :: "string \<Rightarrow> bool" where
  "is_array_index s =
     (s \<noteq> [] \<and> list_all is_digit s \<and> (s = ''0'' \<or> hd s \<noteq> CHR ''0'')
      \<and> index_value s < 2 ^ 32 - 1)"

definition object_entries :: "summary \<Rightarrow> summary" where
  "object_entries props =
     sort_key (\<lambda>p. index_value (fst p)) (filter (\<lambda>p. is_array_index (fst p)) props)
     @ filter (\<lambda>p. \<not> is_array_index (fst p)) props"

text \<open>
  \<open>Object.entries(summary).sort((a, b) => b[1].quantity - a[1].quantity)\<close>
\<close>

definition productSummary :: "string \<Rightarrow> daily_order list \<Rightarrow> summary" where
  "productSummary today os =
     js_sort (\<lambda>a b. js_sub (snd b) (snd a))
       (object_entries (tally_orders (todayOrders today os)))"

text \<open>What the summary is specified to hold under a name: the quantities of the line
  items of today's orders with that name, and their sum.\<close>

definition today_items :: "string \<Rightarrow> daily_order list \<Rightarrow> order_item list" where
  "today_items today os = concat (map items (filter (\<lambda>x. date x = today) os))"

definition quantity_of_name :: "string \<Rightarrow> order_item list \<Rightarrow> real" where
  "quantity_of_name n its = (\<Sum>i\<leftarrow>filter (\<lambda>i. product_name i = n) its. quantity i)"

text \<open>
  The quantity a summary holds under a name, zero when it has no such property, and the
  quantities of the line items of a name added to it one by one.
\<close>

definition held :: "summary \<Rightarrow> string \<Rightarrow> jsnum" where
  "held s n = (case map_of s n of Some q \<Rightarrow> q | None \<Rightarrow> Fin 0)"

definition added_quantities :: "jsnum \<Rightarrow> string \<Rightarrow> order_item list \<Rightarrow> jsnum" where
  "added_quantities q n its =
     foldl (\<lambda>s i. js_add s (Fin (quantity i))) q (filter (\<lambda>i. product_name i = n) its)"

definition line_item :: "string \<Rightarrow> string \<Rightarrow> real \<Rightarrow> order_item" where
  "line_item pid n q =
     \<lparr>product_id = pid, product_name = n, quantity = q, item_unit = ''L'',
      item_price = 1, total = q\<rparr>"

section \<open>Example inputs\<close>

definition empty_state :: app_state where
  "empty_state = \<lparr>user = None, authLoading = False, products = [], customers = [],
     orders = [], dataLoading = True, error = None\<rparr>"

definition empty_world :: world where
  "empty_world = \<lparr>app = empty_state, currentUser = None, profile_docs = Map.empty,
     product_docs = [], customer_docs = [], order_docs = [], calls = []\<rparr>"

text \<open>A backend whose calls all succeed, with the identity that signing in or creating an
  account yields.\<close>

definition ok_backend :: "firebase_user \<Rightarrow> backend" where
  "ok_backend fu = \<lparr>signIn_outcome = Inr fu, createUser_outcome = Inr fu,
     sendEmailVerification_outcome = None, setDoc_outcome = None, signOut_outcome = None,
     getDoc_outcome = None, getDocs_outcome = None, commit_outcome = None,
     timestamp_now = 1700000000\<rparr>"

definition new_user :: firebase_user where
  "new_user = \<lparr>uid = ''u1'', email = Some ''asha@example.com'', emailVerified = False\<rparr>"

definition provider_error :: js_error where
  "provider_error = \<lparr>code = Some ''auth/too-many-requests'',
     error_message = Some ''Firebase: Error (auth/too-many-requests).''\<rparr>"

definition shop_customer :: "string \<Rightarrow> customer" where
  "shop_customer k = \<lparr>id' = k, user_id = ''u1'', created_at = epoch, cust_name = ''Asha'',
     address = ''Main Road'', contact_number = ''100''\<rparr>"

text \<open>
  The owner \<open>u1\<close> is signed in. The store holds two customers and three orders: one of
  \<open>u1\<close> for customer \<open>c1\<close>, one of \<open>u1\<close> for customer \<open>c2\<close>, and one for \<open>c1\<close> that
  another owner has.
\<close>

definition shop_world :: world where
  "shop_world = empty_world\<lparr>
     app := empty_state\<lparr>user := Some \<lparr>au_id = ''u1'', au_email = ''asha@example.com'',
                                         au_username = ''asha''\<rparr>\<rparr>,
     customer_docs := [shop_customer ''c1'', shop_customer ''c2''],
     order_docs := [example_order ''o1'' 100 80,
                    (example_order ''o2'' 50 50)\<lparr>customer_id := ''c2''\<rparr>,
                    (example_order ''o3'' 10 0)\<lparr>user_id := ''u2''\<rparr>]\<rparr>"

definition verified_user :: firebase_user where
  "verified_user = \<lparr>uid = ''u1'', email = Some ''asha@example.com'', emailVerified = True\<rparr>"

text \<open>
  An order of 2024-01-01 with a product named \<open>constructor\<close>, and one with two line
  items of different products that are both named \<open>toString\<close>.
\<close>

definition inherited_name_orders :: "daily_order list" where
  "inherited_name_orders = [(example_order ''o1'' 100 80)\<lparr>items :=
       [line_item ''p1'' ''constructor'' 2, line_item ''p2'' ''milk'' 1]\<rparr>]"

definition shared_name_orders :: "daily_order list" where
  "shared_name_orders = [(example_order ''o1'' 100 80)\<lparr>items :=
       [line_item ''p1'' ''toString'' 2, line_item ''p2'' ''toString'' 3]\<rparr>]"



text \<open>Documents with a given time of creation.\<close>

definition at_time :: "int \<Rightarrow> int \<Rightarrow> timestamp" where
  "at_time s n = \<lparr>seconds = s, nanoseconds = n\<rparr>"

definition dated_order :: "string \<Rightarrow> string \<Rightarrow> timestamp \<Rightarrow> daily_order" where
  "dated_order k d t = (example_order k 0 0)\<lparr>date := d, created_at := t\<rparr>"

definition shop_product :: "string \<Rightarrow> timestamp \<Rightarrow> product" where
  "shop_product k t = \<lparr>id' = k, user_id = ''u1'', created_at = t, name = ''milk'',
     price = 30, product_quantity = 1, product_unit = ''L'', photo = None\<rparr>"

section \<open>Properties of rounding\<close>

lemma round_half_even_int [simp]: "round_half_even (of_int k) = k"
  by (simp add: round_half_even_def)

lemma round_half_even_error: "\<bar>of_int (round_half_even y) - y\<bar> \<le> 1 / 2"
  unfolding round_half_even_def Let_def by (auto; linarith)

lemma two_powi_pos [simp]: "0 < (2::real) powi e"
  by (simp add: power_int_def)

lemma two_powi_Suc: "(2::real) powi (e + 1) = 2 * 2 powi e"
  by (simp add: power_int_add)

lemma two_powi_less_iff: "((2::real) powi a < 2 powi b) = (a < b)"
  by (metis less_le_not_le linorder_neqE_linordered_idom one_less_numeral_iff
      power_int_strict_increasing semiring_norm(76))

lemma two_powi_le_iff: "((2::real) powi a \<le> 2 powi b) = (a \<le> b)"
  by (metis two_powi_less_iff linorder_not_less)

lemma floor_log2_unique:
  assumes "2 powi e \<le> x" and "x < 2 powi (e + 1)" and "\<bar>e\<bar> \<le> int n"
  shows "floor_log2 n x = e"
  using assms
proof (induction n arbitrary: x e)
  case 0
  then have "e = 0" by simp
  with 0 show ?case by simp
next
  case (Suc n)
  show ?case
  proof (cases "x < 1")
    case True
    with Suc.prems(1) have "(2::real) powi e < 2 powi 0" by simp
    then have neg: "e < 0" by (simp only: two_powi_less_iff)
    have "floor_log2 n (2 * x) = e + 1"
    proof (rule Suc.IH)
      show "2 powi (e + 1) \<le> 2 * x"
        using Suc.prems(1) two_powi_Suc [of e] by linarith
      show "2 * x < 2 powi (e + 1 + 1)"
        using Suc.prems(2) two_powi_Suc [of "e + 1"] by linarith
      show "\<bar>e + 1\<bar> \<le> int n" using neg Suc.prems(3) by simp
    qed
    with True show ?thesis by simp
  next
    case False
    show ?thesis
    proof (cases "2 \<le> x")
      case True
      with Suc.prems(2) have "(2::real) powi 1 < 2 powi (e + 1)" by simp
      then have pos: "0 < e" by (simp only: two_powi_less_iff)
      have "floor_log2 n (x / 2) = e - 1"
      proof (rule Suc.IH)
        show "2 powi (e - 1) \<le> x / 2"
          using Suc.prems(1) two_powi_Suc [of "e - 1"] by simp
        show "x / 2 < 2 powi (e - 1 + 1)"
          using Suc.prems(2) two_powi_Suc [of e] by simp
        show "\<bar>e - 1\<bar> \<le> int n" using pos Suc.prems(3) by simp
      qed
      with True False show ?thesis by simp
    next
      case F2: False
      from False Suc.prems(2) have "(2::real) powi 0 < 2 powi (e + 1)" by simp
      then have "0 \<le> e" by (simp only: two_powi_less_iff)
      moreover from F2 Suc.prems(1) have "(2::real) powi e < 2 powi 1" by simp
      then have "e < 1" by (simp only: two_powi_less_iff)
      ultimately have "e = 0" by simp
      with False F2 show ?thesis by simp
    qed
  qed
qed

lemma floor_log2_upper:
  assumes "x < 2 powi (e + 1)" and "0 \<le> e"
  shows "floor_log2 n x \<le> e"
  using assms
proof (induction n arbitrary: x e)
  case 0
  then show ?case by simp
next
  case (Suc n)
  show ?case
  proof (cases "x < 1")
    case True
    have "2 * x < 2 powi (e + 1)"
    proof -
      have "(2::real) powi 1 \<le> 2 powi (e + 1)"
        using Suc.prems(2) by (simp only: two_powi_le_iff)
      with True show ?thesis by simp
    qed
    from Suc.IH [OF this Suc.prems(2)] True show ?thesis by simp
  next
    case False
    show ?thesis
    proof (cases "2 \<le> x")
      case True
      with Suc.prems(1) have "(2::real) powi 1 < 2 powi (e + 1)" by simp
      then have pos: "0 < e" by (simp only: two_powi_less_iff)
      have "x / 2 < 2 powi (e - 1 + 1)"
        using Suc.prems(1) two_powi_Suc [of e] by simp
      from Suc.IH [OF this] pos have "floor_log2 n (x / 2) \<le> e - 1" by simp
      with True False show ?thesis by simp
    next
      case F2: False
      with False Suc.prems(2) show ?thesis by simp
    qed
  qed
qed


lemma powi_bracket:
  assumes "0 < (x::real)"
  shows "\<exists>e. 2 powi e \<le> x \<and> x < 2 powi (e + 1)"
proof -
  have "2 powr of_int \<lfloor>log 2 x\<rfloor> \<le> x \<and> x < 2 powr (of_int \<lfloor>log 2 x\<rfloor> + 1)"
    using floor_log_eq_powr_iff [of x 2 "\<lfloor>log 2 x\<rfloor>"] assms by simp
  moreover have "(2::real) powr of_int \<lfloor>log 2 x\<rfloor> = 2 powi \<lfloor>log 2 x\<rfloor>"
    by (simp add: powr_real_of_int')
  moreover have "(2::real) powr (of_int \<lfloor>log 2 x\<rfloor> + 1) = 2 powi (\<lfloor>log 2 x\<rfloor> + 1)"
    using powr_real_of_int' [of 2 "\<lfloor>log 2 x\<rfloor> + 1"] by simp
  ultimately show ?thesis by auto
qed

lemma double_exponent_normal:
  assumes "2 powi e \<le> \<bar>x\<bar>" and "\<bar>x\<bar> < 2 powi (e + 1)" and "- 1022 \<le> e" and "e \<le> 1100"
  shows "double_exponent x = e"
proof -
  from assms(3,4) have "\<bar>e\<bar> \<le> int 1100" by simp
  from floor_log2_unique [OF assms(1,2) this] assms(3) show ?thesis
    by (simp add: double_exponent_def)
qed

lemma double_exponent_upper:
  assumes "\<bar>x\<bar> < 2 powi (e + 1)" and "0 \<le> e"
  shows "double_exponent x \<le> e"
  using floor_log2_upper [OF assms] assms(2) by (simp add: double_exponent_def)

lemma double_exponent_lower: "- 1022 \<le> double_exponent x"
  by (simp add: double_exponent_def)

lemma round_double_at:
  assumes "2 powi e \<le> \<bar>x\<bar>" and "\<bar>x\<bar> < 2 powi (e + 1)" and "- 1022 \<le> e" and "e \<le> 1100"
    and "round_half_even (x / 2 powi (e - 52)) = k"
    and "\<bar>of_int k * 2 powi (e - 52)\<bar> < (2::real) ^ 1024"
  shows "round_double x = Fin (of_int k * 2 powi (e - 52))"
proof -
  have "0 < \<bar>x\<bar>"
    using assms(1) two_powi_pos [of e] by linarith
  then have "x \<noteq> 0" by simp
  moreover have "double_exponent x = e"
    by (rule double_exponent_normal [OF assms(1-4)])
  ultimately show ?thesis
    using assms(5,6) by (simp add: round_double_def Let_def abs_less_iff)
qed

lemma round_double_near:
  assumes "\<bar>x\<bar> < 2 powi (e + 1)" and "0 \<le> e" and "e \<le> 1000"
  shows "\<exists>r. round_double x = Fin r \<and> \<bar>r - x\<bar> \<le> 2 powi (e - 53)"
proof (cases "x = 0")
  case True
  then show ?thesis by (simp add: round_double_def)
next
  case False
  define u :: real where "u = 2 powi (double_exponent x - 52)"
  define r where "r = of_int (round_half_even (x / u)) * u"
  have u_pos: "0 < u" by (simp add: u_def)
  have "double_exponent x - 52 \<le> e - 52"
    using double_exponent_upper [OF assms(1,2)] by simp
  then have u_le: "u \<le> 2 powi (e - 52)"
    unfolding u_def by (simp only: two_powi_le_iff)
  have "\<bar>r - x\<bar> = \<bar>of_int (round_half_even (x / u)) - x / u\<bar> * u"
  proof -
    have "r - x = (of_int (round_half_even (x / u)) - x / u) * u"
      using u_pos by (simp add: r_def field_simps)
    then show ?thesis using u_pos by (simp add: abs_mult)
  qed
  also have "\<dots> \<le> (1 / 2) * u"
    using round_half_even_error [of "x / u"] u_pos by (simp add: mult_right_mono)
  also have "\<dots> \<le> (1 / 2) * 2 powi (e - 52)"
    using u_le by simp
  also have "\<dots> = 2 powi (e - 53)"
    using two_powi_Suc [of "e - 53"] by simp
  finally have near: "\<bar>r - x\<bar> \<le> 2 powi (e - 53)" .
  have "(2::real) powi (e - 53) \<le> 2 powi (e + 1)"
    by (simp only: two_powi_le_iff)
  with near assms(1) have "\<bar>r\<bar> < 2 * 2 powi (e + 1)" by linarith
  also have "\<dots> = 2 powi (e + 2)"
    using two_powi_Suc [of "e + 1"] by (simp add: add.commute)
  also have "\<dots> \<le> 2 powi 1024"
    using assms(3) by (simp only: two_powi_le_iff)
  finally have "\<bar>r\<bar> < 2 ^ 1024" by simp
  then have "round_double x = Fin r"
    using False by (simp add: round_double_def Let_def u_def r_def abs_less_iff)
  with near show ?thesis by blast
qed

lemma round_double_exact:
  assumes "x / 2 powi (double_exponent x - 52) = of_int k" and "\<bar>x\<bar> < 2 ^ 1024"
  shows "round_double x = Fin x"
proof (cases "x = 0")
  case True
  then show ?thesis by (simp add: round_double_def)
next
  case False
  have "of_int (round_half_even (x / 2 powi (double_exponent x - 52)))
        * 2 powi (double_exponent x - 52)
      = x / 2 powi (double_exponent x - 52) * 2 powi (double_exponent x - 52)"
    by (simp only: assms(1) round_half_even_int)
  then have "of_int (round_half_even (x / 2 powi (double_exponent x - 52)))
        * 2 powi (double_exponent x - 52) = x"
    by simp
  with False assms(2) show ?thesis
    by (simp add: round_double_def Let_def abs_less_iff)
qed

lemma round_double_int:
  assumes "\<bar>n\<bar> \<le> 2 ^ 53"
  shows "round_double (of_int n) = Fin (of_int n)"
proof (cases "n = 0")
  case True
  then show ?thesis by (simp add: round_double_def)
next
  case False
  define x :: real where "x = of_int n"
  from False have one: "1 \<le> \<bar>x\<bar>"
    unfolding x_def by (metis abs_zero of_int_abs of_int_1_le_iff zero_less_abs_iff
        int_one_le_iff_zero_less)
  from assms have top: "\<bar>x\<bar> \<le> 2 ^ 53"
    unfolding x_def by (metis of_int_abs of_int_le_iff of_int_numeral of_int_power)
  from one have "0 < \<bar>x\<bar>" by linarith
  then obtain e where e: "2 powi e \<le> \<bar>x\<bar>" "\<bar>x\<bar> < 2 powi (e + 1)"
    using powi_bracket [of "\<bar>x\<bar>"] by blast
  from one e(2) have "(2::real) powi 0 < 2 powi (e + 1)" by simp
  then have e0: "0 \<le> e" by (simp only: two_powi_less_iff)
  from top e(1) have "(2::real) powi e \<le> 2 powi 53" by simp
  then have e53: "e \<le> 53" by (simp only: two_powi_le_iff)
  have de: "double_exponent x = e"
    using double_exponent_normal [OF e] e0 e53 by simp
  have "\<exists>k. x / 2 powi (e - 52) = of_int k"
  proof (cases "e \<le> 52")
    case True
    then have "(2::real) powi (e - 52) = 1 / 2 ^ nat (52 - e)"
      by (simp add: power_int_def power_one_over inverse_eq_divide)
    then have "x / 2 powi (e - 52) = of_int (n * 2 ^ nat (52 - e))"
      by (simp add: x_def)
    then show ?thesis by blast
  next
    case F: False
    with e53 have e: "e = 53" by simp
    with \<open>2 powi e \<le> \<bar>x\<bar>\<close> top have "\<bar>x\<bar> = 2 ^ 53" by simp
    then have "x = 2 ^ 53 \<or> x = - (2 ^ 53)" by (simp add: abs_if split: if_splits)
    then have "x / 2 powi (e - 52) = of_int (2 ^ 52) \<or> x / 2 powi (e - 52) = of_int (- (2 ^ 52))"
      by (auto simp: e)
    then show ?thesis by blast
  qed
  then obtain k where "x / 2 powi (double_exponent x - 52) = of_int k"
    using de by auto
  moreover from top have "\<bar>x\<bar> < 2 ^ 1024" by simp
  ultimately show ?thesis
    unfolding x_def [symmetric] by (rule round_double_exact)
qed

lemma floor_log2_upper_neg:
  assumes "x < 2 powi (e + 1)" and "e < 0" and "- e \<le> int n"
  shows "floor_log2 n x \<le> e"
  using assms
proof (induction n arbitrary: x e)
  case 0
  then show ?case by simp
next
  case (Suc n)
  have "(2::real) powi (e + 1) \<le> 2 powi 0"
    using Suc.prems(2) by (simp only: two_powi_le_iff; simp)
  with Suc.prems(1) have small: "x < 1" by simp
  have dbl: "2 * x < 2 powi (e + 1 + 1)"
    using Suc.prems(1) two_powi_Suc [of "e + 1"] by linarith
  have "floor_log2 n (2 * x) \<le> e + 1"
  proof (cases "e + 1 < 0")
    case True
    show ?thesis
      by (rule Suc.IH [OF dbl True]) (use Suc.prems(3) in simp)
  next
    case False
    with Suc.prems(2) have "e + 1 = 0" by simp
    with dbl floor_log2_upper [of "2 * x" 0 n] show ?thesis by simp
  qed
  with small show ?case by simp
qed

lemma double_exponent_eq:
  assumes "2 powi e \<le> \<bar>x\<bar>" and "\<bar>x\<bar> < 2 powi (e + 1)" and "e \<le> 1100"
  shows "double_exponent x = max e (- 1022)"
proof (cases "- 1022 \<le> e")
  case True
  with double_exponent_normal [OF assms(1,2) True assms(3)] show ?thesis by simp
next
  case False
  then have "(2::real) powi (e + 1) \<le> 2 powi (- 1023 + 1)"
    by (simp only: two_powi_le_iff; simp)
  with assms(2) have "\<bar>x\<bar> < 2 powi (- 1023 + 1)" by linarith
  from floor_log2_upper_neg [OF this, of 1100] False show ?thesis
    by (simp add: double_exponent_def)
qed

lemma floor_log2_le_fuel: "floor_log2 n x \<le> int n"
proof (induction n arbitrary: x)
  case 0
  then show ?case by simp
next
  case (Suc n)
  from Suc [of "2 * x"] Suc [of "x / 2"] show ?case by simp
qed

lemma round_half_even_bounds:
  "\<lfloor>y\<rfloor> \<le> round_half_even y" "round_half_even y \<le> \<lceil>y\<rceil>"
  unfolding round_half_even_def Let_def by (auto; linarith)+

lemma round_half_even_abs:
  assumes "\<bar>y\<bar> \<le> of_int m"
  shows "\<bar>round_half_even y\<bar> \<le> m"
proof -
  from assms have "y \<le> of_int m" and "of_int (- m) \<le> y" by simp_all
  then have "\<lceil>y\<rceil> \<le> m" and "- m \<le> \<lfloor>y\<rfloor>"
    by (simp_all add: ceiling_le_iff le_floor_iff)
  with round_half_even_bounds [of y] show ?thesis by linarith
qed

lemma int_times_powi:
  assumes "0 \<le> d"
  shows "\<exists>k. of_int n * (2::real) powi d = of_int k"
proof -
  have "of_int n * (2::real) powi d = of_int (n * 2 ^ nat d)"
    using assms by (simp add: power_int_def)
  then show ?thesis by blast
qed

lemma two_powi_53: "(2::real) powi (E + 1) = 2 ^ 53 * 2 powi (E - 52)"
proof -
  have "E + 1 = 53 + (E - 52)" by simp
  then have "(2::real) powi (E + 1) = 2 powi (53 + (E - 52))" by (rule arg_cong)
  also have "\<dots> = 2 powi 53 * 2 powi (E - 52)" by (rule power_int_add) simp
  finally show ?thesis by simp
qed

lemma round_double_idem:
  assumes "round_double x = Fin r"
  shows "round_double r = Fin r"
proof (cases "x = 0 \<or> r = 0")
  case True
  with assms show ?thesis by (auto simp: round_double_def)
next
  case False
  then have x0: "x \<noteq> 0" and r0: "r \<noteq> 0" by simp_all
  define E where "E = double_exponent x"
  define u :: real where "u = 2 powi (E - 52)"
  define n where "n = round_half_even (x / u)"
  have u_pos: "0 < u" by (simp add: u_def)
  from assms x0 have r: "r = of_int n * u" and fin: "\<bar>r\<bar> < 2 ^ 1024"
    by (auto simp: round_double_def Let_def u_def n_def E_def abs_less_iff split: if_splits)
  have E_lo: "- 1022 \<le> E" by (simp add: E_def double_exponent_lower)
  have E_hi: "E \<le> 1100"
    using floor_log2_le_fuel [of 1100 "\<bar>x\<bar>"] by (simp add: E_def double_exponent_def)
  \<comment> \<open>the argument lies below the next power of two\<close>
  have x_small: "\<bar>x\<bar> < 2 powi (E + 1)"
  proof -
    from x0 obtain e where e: "2 powi e \<le> \<bar>x\<bar>" "\<bar>x\<bar> < 2 powi (e + 1)"
      using powi_bracket [of "\<bar>x\<bar>"] by auto
    show ?thesis
    proof (cases "e \<le> 1100")
      case True
      from double_exponent_eq [OF e True] have "e \<le> E" by (simp add: E_def)
      then have "(2::real) powi (e + 1) \<le> 2 powi (E + 1)"
        by (simp only: two_powi_le_iff; simp)
      with e(2) show ?thesis by linarith
    next
      case False
      \<comment> \<open>then the rounded value cannot be finite\<close>
      have "(2::real) powi 1101 \<le> 2 powi e"
        using False by (simp only: two_powi_le_iff; simp)
      with e(1) have big: "2 powi 1101 \<le> \<bar>x\<bar>" by linarith
      have "u \<le> 2 powi 1048"
        unfolding u_def using E_hi by (simp only: two_powi_le_iff; simp)
      have "\<bar>r - x\<bar> = \<bar>of_int n - x / u\<bar> * u"
      proof -
        have "r - x = (of_int n - x / u) * u"
          using u_pos by (simp add: r field_simps)
        then show ?thesis using u_pos by (simp add: abs_mult)
      qed
      also have "\<dots> \<le> (1 / 2) * u"
        using round_half_even_error [of "x / u"] u_pos
        by (simp add: n_def mult_right_mono)
      finally have "\<bar>r - x\<bar> \<le> 2 powi 1048"
        using \<open>u \<le> 2 powi 1048\<close> u_pos by linarith
      with fin have "\<bar>x\<bar> < 2 ^ 1024 + 2 powi 1048" by linarith
      also have "\<dots> < 2 powi 1101" by simp
      finally show ?thesis using big by simp
    qed
  qed
  then have "\<bar>x / u\<bar> < 2 ^ 53"
  proof -
    have "2 powi (E + 1) = 2 ^ 53 * u"
      unfolding u_def by (rule two_powi_53)
    with x_small u_pos show ?thesis
      by (simp add: abs_divide pos_divide_less_eq)
  qed
  then have "\<bar>x / u\<bar> \<le> of_int (2 ^ 53)" by simp
  then have n_le: "\<bar>n\<bar> \<le> 2 ^ 53"
    unfolding n_def by (rule round_half_even_abs)
  \<comment> \<open>the exponent of the result\<close>
  from r0 obtain e' where e': "2 powi e' \<le> \<bar>r\<bar>" "\<bar>r\<bar> < 2 powi (e' + 1)"
    using powi_bracket [of "\<bar>r\<bar>"] by auto
  have "(2::real) powi e' < 2 powi 1024"
    using e'(1) fin by simp
  then have e'_hi: "e' < 1024" by (simp only: two_powi_less_iff)
  then have Er: "double_exponent r = max e' (- 1022)"
    using double_exponent_eq [OF e'] by simp
  have abs_r: "\<bar>r\<bar> = of_int \<bar>n\<bar> * u"
    using u_pos by (simp add: r abs_mult)
  have "\<exists>k. r / 2 powi (double_exponent r - 52) = of_int k"
  proof (cases "\<bar>n\<bar> = 2 ^ 53")
    case True
    then have "\<bar>r\<bar> = 2 ^ 53 * u" by (simp add: abs_r)
    also have "\<dots> = 2 powi (E + 1)"
      unfolding u_def by (rule two_powi_53 [symmetric])
    finally have rr: "\<bar>r\<bar> = 2 powi (E + 1)" .
    have "e' = E + 1"
    proof -
      from e' rr have "(2::real) powi e' \<le> 2 powi (E + 1)" "(2::real) powi (E + 1) < 2 powi (e' + 1)"
        by simp_all
      then have "e' \<le> E + 1" "E + 1 < e' + 1" by (simp_all only: two_powi_le_iff two_powi_less_iff)
      then show ?thesis by simp
    qed
    with Er E_lo have "double_exponent r = E + 1" by simp
    then have "2 powi (double_exponent r - 52) = 2 * u"
      unfolding u_def using two_powi_Suc [of "E - 52"] by (simp add: algebra_simps)
    then have "r / 2 powi (double_exponent r - 52) = of_int n / 2"
      using u_pos by (simp add: r)
    moreover from True have "even n"
      by (metis abs_if even_minus even_numeral even_power zero_less_numeral
          dvd_abs_iff)
    then obtain m where "n = 2 * m" by (auto elim: evenE)
    ultimately have "r / 2 powi (double_exponent r - 52) = of_int m" by simp
    then show ?thesis by blast
  next
    case False
    with n_le have "\<bar>n\<bar> < 2 ^ 53" by simp
    then have "(of_int \<bar>n\<bar> :: real) < 2 ^ 53"
      by (metis of_int_less_iff of_int_numeral of_int_power)
    then have "\<bar>r\<bar> < 2 ^ 53 * u"
      using u_pos by (simp add: abs_r)
    also have "\<dots> = 2 powi (E + 1)"
      unfolding u_def by (rule two_powi_53 [symmetric])
    finally have "(2::real) powi e' < 2 powi (E + 1)" using e'(1) by linarith
    then have "e' \<le> E" by (simp only: two_powi_less_iff; simp)
    with Er E_lo have "double_exponent r \<le> E" by simp
    then obtain k where "of_int n * (2::real) powi (E - double_exponent r) = of_int k"
      using int_times_powi [of "E - double_exponent r" n] by auto
    moreover have "r / 2 powi (double_exponent r - 52)
        = of_int n * 2 powi (E - double_exponent r)"
      using power_int_diff [of "2::real" "E - 52" "double_exponent r - 52"]
      by (simp add: r u_def)
    ultimately show ?thesis by auto
  qed
  then obtain k where "r / 2 powi (double_exponent r - 52) = of_int k" ..
  then show ?thesis using fin by (rule round_double_exact)
qed

lemma round_double_Ints:
  assumes "r \<in> \<int>" and "\<bar>r\<bar> \<le> 2 ^ 53"
  shows "round_double r = Fin r"
proof -
  from assms(1) obtain n where n: "r = of_int n" by (rule Ints_cases)
  with assms(2) have "\<bar>n\<bar> \<le> 2 ^ 53"
    by (metis of_int_abs of_int_le_iff of_int_numeral of_int_power)
  then show ?thesis unfolding n by (rule round_double_int)
qed

lemma round_double_numeral:
  "numeral n \<le> (2::real) ^ 53 \<Longrightarrow> round_double (numeral n) = Fin (numeral n)"
  "numeral n \<le> (2::real) ^ 53 \<Longrightarrow> round_double (- numeral n) = Fin (- numeral n)"
  "round_double 1 = Fin 1"
  "round_double (- 1) = Fin (- 1)"
  by (simp_all add: round_double_Ints)

lemma round_double_zero [simp]: "round_double 0 = Fin 0"
  by (simp add: round_double_def)

lemma is_double_js_add: "is_double (js_add a b)"
proof (cases "js_add a b")
  case (Fin r)
  then obtain x where "round_double x = Fin r"
    by (cases a; cases b) auto
  then show ?thesis using Fin by (simp add: round_double_idem)
qed simp_all

lemma js_add_zero: "is_double v \<Longrightarrow> js_add v (Fin 0) = v"
  by (cases v) simp_all

lemma js_add_NaN_right: "js_add a NaN = NaN"
  by (cases a) simp_all

lemma foldl_add_NaN:
  "foldl (\<lambda>sum order. js_add sum (f order)) NaN xs = NaN"
  by (induction xs) simp_all

section \<open>Properties of the dashboard totals\<close>




lemma is_double_totalCollectionToday: "is_double (totalCollectionToday today ords)"
proof -
  have "is_double (foldl (\<lambda>sum x. js_add sum (f x)) a xs)" if "is_double a" for f a
    and xs :: "daily_order list"
    using that by (induction xs arbitrary: a) (simp_all add: is_double_js_add)
  then show ?thesis by (simp add: totalCollectionToday_def)
qed




text \<open>
  C9. The two totals start at zero and take today's orders one by one. The collection adds
  \<open>amount_paid\<close> when it is truthy and the number 0 when it is missing, \<open>null\<close>, zero or
  \<open>NaN\<close>, so that such an order leaves the collection as it is; the total amount adds
  \<open>total_amount\<close> as it is, so that an order of today without it turns the total into
  \<open>NaN\<close>. An order of another day changes neither.
\<close>

theorem amount_paid_guard:
  "totalCollectionToday today [] = Fin 0
   \<and> totalAmountToday today [] = Fin 0
   \<and> (date x = today \<longrightarrow>
        totalCollectionToday today (xs @ [x])
          = js_add (totalCollectionToday today xs)
              (if truthy (amount_paid x) then ToNumber (amount_paid x) else Fin 0)
        \<and> totalAmountToday today (xs @ [x])
          = js_add (totalAmountToday today xs) (ToNumber (total_amount x)))
   \<and> (date x \<noteq> today \<longrightarrow>
        totalCollectionToday today (xs @ [x]) = totalCollectionToday today xs
        \<and> totalAmountToday today (xs @ [x]) = totalAmountToday today xs)
   \<and> (\<not> truthy (amount_paid x) \<longrightarrow>
        totalCollectionToday today (xs @ x # ys) = totalCollectionToday today (xs @ ys))
   \<and> (date x = today \<and> total_amount x = Undefined \<longrightarrow>
        totalAmountToday today (xs @ x # ys) = NaN)"
proof (intro conjI impI)
  show "totalCollectionToday today [] = Fin 0"
    by (simp add: totalCollectionToday_def todayOrders_def)
  show "totalAmountToday today [] = Fin 0"
    by (simp add: totalAmountToday_def todayOrders_def)
next
  assume "date x = today"
  then show "totalCollectionToday today (xs @ [x])
      = js_add (totalCollectionToday today xs)
          (if truthy (amount_paid x) then ToNumber (amount_paid x) else Fin 0)"
    and "totalAmountToday today (xs @ [x])
      = js_add (totalAmountToday today xs) (ToNumber (total_amount x))"
    by (simp_all add: totalCollectionToday_def totalAmountToday_def todayOrders_def js_or_def)
next
  assume "date x \<noteq> today"
  then show "totalCollectionToday today (xs @ [x]) = totalCollectionToday today xs"
    and "totalAmountToday today (xs @ [x]) = totalAmountToday today xs"
    by (simp_all add: totalCollectionToday_def totalAmountToday_def todayOrders_def)
next
  assume falsy: "\<not> truthy (amount_paid x)"
  show "totalCollectionToday today (xs @ x # ys) = totalCollectionToday today (xs @ ys)"
  proof (cases "date x = today")
    case True
    have "js_add (totalCollectionToday today xs) (Fin 0) = totalCollectionToday today xs"
      by (rule js_add_zero) (rule is_double_totalCollectionToday)
    with True falsy show ?thesis
      by (simp add: totalCollectionToday_def todayOrders_def js_or_def)
  next
    case False
    then show ?thesis by (simp add: totalCollectionToday_def todayOrders_def)
  qed
next
  assume "date x = today \<and> total_amount x = Undefined"
  then show "totalAmountToday today (xs @ x # ys) = NaN"
    by (simp add: totalAmountToday_def todayOrders_def js_add_NaN_right foldl_add_NaN)
qed

theorem amount_paid_guard_example:
  "\<not> truthy (amount_paid ((example_order ''o2'' 50 50)\<lparr>amount_paid := Undefined\<rparr>))
   \<and> totalCollectionToday ''2024-01-01''
        [example_order ''o1'' 100 80, (example_order ''o2'' 50 50)\<lparr>amount_paid := Undefined\<rparr>]
       = Fin 80
   \<and> totalAmountToday ''2024-01-01''
        [example_order ''o1'' 100 80, (example_order ''o2'' 50 50)\<lparr>amount_paid := Undefined\<rparr>]
       = Fin 150
   \<and> total_amount ((example_order ''o2'' 50 50)\<lparr>total_amount := Undefined\<rparr>) = Undefined
   \<and> totalAmountToday ''2024-01-01''
        [example_order ''o1'' 100 80, (example_order ''o2'' 50 50)\<lparr>total_amount := Undefined\<rparr>]
       = NaN"
  using amount_paid_guard [of "''2024-01-01''"
      "(example_order ''o2'' 50 50)\<lparr>amount_paid := Undefined\<rparr>"
      "[example_order ''o1'' 100 80]" "[]"]
    amount_paid_guard [of "''2024-01-01''"
      "(example_order ''o2'' 50 50)\<lparr>total_amount := Undefined\<rparr>"
      "[example_order ''o1'' 100 80]" "[]"]
  by (simp add: example_order_def totalCollectionToday_def totalAmountToday_def
      todayOrders_def js_or_def round_double_numeral)

section \<open>Properties of the snapshot callbacks\<close>

lemma mset_sort_insert: "mset (sort_insert cmp a xs) = add_mset a (mset xs)"
  by (induction xs) simp_all

lemma mset_js_sort: "mset (js_sort cmp xs) = mset xs"
  unfolding js_sort_def by (induction xs) (simp_all add: mset_sort_insert)

lemma set_sort_insert: "set (sort_insert cmp a xs) = insert a (set xs)"
  by (induction xs) auto

lemma set_js_sort: "set (js_sort cmp xs) = set xs"
  using mset_js_sort [of cmp xs] by (metis set_mset_mset)

text \<open>
  A comparator that is positive exactly where a total preorder fails sorts by that
  preorder.
\<close>

lemma sorted_sort_insert:
  assumes agree: "\<forall>b \<in> set ys. js_positive (cmp a b) = (\<not> le a b)"
    and total: "\<And>a b. le a b \<or> le b a"
    and trans: "\<And>a b c. le a b \<Longrightarrow> le b c \<Longrightarrow> le a c"
    and sorted: "sorted_wrt le ys"
  shows "sorted_wrt le (sort_insert cmp a ys)"
  using agree sorted
proof (induction ys)
  case Nil
  then show ?case by simp
next
  case (Cons y ys)
  show ?case
  proof (cases "js_positive (cmp a y)")
    case True
    with Cons.prems(1) have "\<not> le a y" by simp
    with total have "le y a" by blast
    with True Cons show ?thesis
      by (simp add: set_sort_insert)
  next
    case False
    with Cons.prems(1) have "le a y" by simp
    then have "\<forall>z \<in> set ys. le a z"
      using Cons.prems(2) trans by auto
    with False \<open>le a y\<close> Cons.prems(2) show ?thesis by simp
  qed
qed

lemma sorted_js_sort:
  assumes agree: "\<forall>a \<in> set xs. \<forall>b \<in> set xs. js_positive (cmp a b) = (\<not> le a b)"
    and total: "\<And>a b. le a b \<or> le b a"
    and trans: "\<And>a b c. le a b \<Longrightarrow> le b c \<Longrightarrow> le a c"
  shows "sorted_wrt le (js_sort cmp xs)"
proof -
  have "sorted_wrt le (js_sort cmp ys)" if "set ys \<subseteq> set xs" for ys
    using that
  proof (induction ys)
    case Nil
    then show ?case by (simp add: js_sort_def)
  next
    case (Cons y ys)
    then have sub: "set ys \<subseteq> set xs" and y: "y \<in> set xs" by simp_all
    have "sorted_wrt le (sort_insert cmp y (js_sort cmp ys))"
    proof (rule sorted_sort_insert [OF _ total trans])
      show "\<forall>b \<in> set (js_sort cmp ys). js_positive (cmp y b) = (\<not> le y b)"
        using agree y sub by (auto simp: set_js_sort)
      show "sorted_wrt le (js_sort cmp ys)" by (rule Cons.IH [OF sub])
    qed
    then show ?case by (simp add: js_sort_def)
  qed
  then show ?thesis by simp
qed

subsection \<open>The sign of a difference of timestamps\<close>

lemma valueOf_number_range:
  assumes "valid_timestamp t"
  shows "0 \<le> valueOf_number t" and "valueOf_number t < 315537897600"
proof -
  from assms have s: "0 \<le> seconds t + 62135596800" "seconds t + 62135596800 \<le> 315537897599"
    and n: "0 \<le> nanoseconds t" "nanoseconds t < 10 ^ 9"
    by (simp_all add: valid_timestamp_def)
  from n have frac: "0 \<le> (of_int (nanoseconds t) :: real) / 10 ^ 9"
    "(of_int (nanoseconds t) :: real) / 10 ^ 9 < 1"
    by simp_all
  from s have whole: "(0::real) \<le> of_int (seconds t + 62135596800)"
    "(of_int (seconds t + 62135596800) :: real) \<le> 315537897599"
    by simp_all
  show "0 \<le> valueOf_number t" "valueOf_number t < 315537897600"
    unfolding valueOf_number_def using frac whole by linarith+
qed

lemma timestamp_number_near:
  assumes "valid_timestamp t"
  shows "\<exists>r. timestamp_number t = Fin r \<and> \<bar>r - valueOf_number t\<bar> \<le> 1 / 32768"
proof -
  have "\<bar>valueOf_number t\<bar> < 2 powi (38 + 1)"
    using valueOf_number_range [OF assms] by simp
  from round_double_near [OF this] show ?thesis
    by (simp add: timestamp_number_def power_int_minus)
qed

lemma millisecond_gap:
  assumes "millisecond_timestamp s" and "millisecond_timestamp t"
  shows "\<exists>m::int. instant s - instant t = of_int m / 1000"
proof -
  from assms obtain a b where a: "nanoseconds s = 10 ^ 6 * a" and b: "nanoseconds t = 10 ^ 6 * b"
    by (auto simp: millisecond_timestamp_def elim!: dvdE dest!: mod_0_imp_dvd)
  have "instant s - instant t
      = of_int (1000 * (seconds s - seconds t) + (a - b)) / 1000"
    by (simp add: instant_def a b field_simps)
  then show ?thesis by blast
qed

lemma timestamp_difference_sign:
  assumes "millisecond_timestamp s" and "millisecond_timestamp t"
  shows "js_positive (js_sub (timestamp_number s) (timestamp_number t))
       = (instant t < instant s)"
proof -
  from assms have vs: "valid_timestamp s" and vt: "valid_timestamp t"
    by (simp_all add: millisecond_timestamp_def)
  from timestamp_number_near [OF vs] obtain p
    where p: "timestamp_number s = Fin p" "\<bar>p - valueOf_number s\<bar> \<le> 1 / 32768" by blast
  from timestamp_number_near [OF vt] obtain q
    where q: "timestamp_number t = Fin q" "\<bar>q - valueOf_number t\<bar> \<le> 1 / 32768" by blast
  have diff: "valueOf_number s - valueOf_number t = instant s - instant t"
    by (simp add: valueOf_number_def instant_def)
  have "\<bar>p - q\<bar> < 549755813888"
    using p(2) q(2) valueOf_number_range [OF vs] valueOf_number_range [OF vt] by linarith
  then have "\<bar>p - q\<bar> < 2 powi (38 + 1)" by simp
  from round_double_near [OF this] obtain d
    where d: "round_double (p - q) = Fin d" "\<bar>d - (p - q)\<bar> \<le> 1 / 32768"
    by (auto simp: power_int_minus)
  have sub: "js_sub (timestamp_number s) (timestamp_number t) = Fin d"
    by (simp add: js_sub_def p(1) q(1) d(1))
  from millisecond_gap [OF assms] obtain m :: int
    where m: "instant s - instant t = of_int m / 1000" by blast
  consider "1 \<le> m" | "m = 0" | "m \<le> - 1" by linarith
  then show ?thesis
  proof cases
    case 1
    then have "(1::real) \<le> of_int m" by simp
    then have "1 / 1000 \<le> instant s - instant t" by (simp add: m)
    with p(2) q(2) d(2) diff have "0 < d" by linarith
    moreover from \<open>1 / 1000 \<le> instant s - instant t\<close> have "instant t < instant s" by simp
    ultimately show ?thesis by (simp add: sub)
  next
    case 2
    with m have same: "instant s = instant t" by simp
    with diff have "valueOf_number s = valueOf_number t" by simp
    then have "p = q" using p(1) q(1) by (simp add: timestamp_number_def)
    with d(1) have "d = 0" by simp
    with same show ?thesis by (simp add: sub)
  next
    case 3
    then have "of_int m \<le> (- 1::real)" by linarith
    then have "instant s - instant t \<le> - (1 / 1000)" by (simp add: m)
    with p(2) q(2) d(2) diff have "d < 0" by linarith
    moreover from \<open>instant s - instant t \<le> - (1 / 1000)\<close> have "\<not> instant t < instant s"
      by simp
    ultimately show ?thesis by (simp add: sub)
  qed
qed

lemma sorted_by_created_at:
  assumes "\<forall>x \<in> set xs. millisecond_timestamp (created_at x)"
  shows "sorted_wrt (\<lambda>a b. instant (created_at a) \<le> instant (created_at b))
     (js_sort (\<lambda>a b. created_at_difference a b) xs)"
proof (rule sorted_js_sort)
  show "\<forall>a \<in> set xs. \<forall>b \<in> set xs. js_positive (created_at_difference a b)
      = (\<not> instant (created_at a) \<le> instant (created_at b))"
    using assms by (auto simp: created_at_difference_def timestamp_difference_sign)
qed auto

lemma sorted_by_orders_compare:
  assumes stamps: "\<forall>x \<in> set xs. millisecond_timestamp (created_at x) \<and> is_date (date x)"
    and collation: "date_collation collate"
  shows "sorted_wrt (\<lambda>a b. date b < date a
        \<or> (date a = date b \<and> instant (created_at b) \<le> instant (created_at a)))
     (js_sort (orders_compare collate) xs)"
proof (rule sorted_js_sort)
  show "\<forall>a \<in> set xs. \<forall>b \<in> set xs. js_positive (orders_compare collate a b)
      = (\<not> (date b < date a
            \<or> (date a = date b \<and> instant (created_at b) \<le> instant (created_at a))))"
  proof (intro ballI)
    fix a b assume a: "a \<in> set xs" and b: "b \<in> set xs"
    with stamps have dates: "is_date (date b) \<and> is_date (date a)" by simp
    with collation have c: "(collate (date b) (date a) < 0) = (date b < date a)"
      "(collate (date b) (date a) = 0) = (date b = date a)"
      unfolding date_collation_def by blast+
    from a b stamps have sign: "js_positive (created_at_difference b a)
        = (instant (created_at a) < instant (created_at b))"
      by (simp add: created_at_difference_def timestamp_difference_sign)
    show "js_positive (orders_compare collate a b)
        = (\<not> (date b < date a
              \<or> (date a = date b \<and> instant (created_at b) \<le> instant (created_at a))))"
    proof (cases "collate (date b) (date a) = 0")
      case True
      with c(2) have "date b = date a" by simp
      with True sign show ?thesis by (auto simp: orders_compare_def Let_def)
    next
      case False
      with c(2) have "date b \<noteq> date a" by simp
      moreover have "(0 < collate (date b) (date a)) = (\<not> date b < date a)"
        using False c(1) by linarith
      ultimately show ?thesis using False by (auto simp: orders_compare_def Let_def)
    qed
  qed
qed auto

lemma date_collation_codepoint: "date_collation codepoint_compare"
  by (simp add: date_collation_def codepoint_compare_def)

text \<open>
  C4, as stated, fails: the comparator subtracts the doubles that the two timestamps
  convert to, and near the present these doubles are about 7.6 microseconds apart. Two
  products created in the same second, the first two microseconds and the second one
  microsecond into it, convert to the same double and keep the order of the snapshot, which
  is not ascending.
\<close>

theorem snapshot_keeps_close_timestamps:
  "valid_timestamp (at_time 1700000000 2000)
   \<and> valid_timestamp (at_time 1700000000 1000)
   \<and> instant (at_time 1700000000 1000) < instant (at_time 1700000000 2000)
   \<and> products (on_products_snapshot
        [shop_product ''p1'' (at_time 1700000000 2000),
         shop_product ''p2'' (at_time 1700000000 1000)] empty_state)
      = [shop_product ''p1'' (at_time 1700000000 2000),
         shop_product ''p2'' (at_time 1700000000 1000)]"
proof -
  have n1: "timestamp_number (at_time 1700000000 2000) = Fin 63835596800"
    unfolding timestamp_number_def valueOf_number_def at_time_def
    using round_double_at [of 35 "of_int (1700000000 + 62135596800) + of_int 2000 / 10 ^ 9"
      "63835596800 * 2 ^ 17"]
    by (simp add: round_half_even_def power_int_minus field_simps)
  have n2: "timestamp_number (at_time 1700000000 1000) = Fin 63835596800"
    unfolding timestamp_number_def valueOf_number_def at_time_def
    using round_double_at [of 35 "of_int (1700000000 + 62135596800) + of_int 1000 / 10 ^ 9"
      "63835596800 * 2 ^ 17"]
    by (simp add: round_half_even_def power_int_minus field_simps)
  have "created_at_difference (shop_product ''p1'' (at_time 1700000000 2000))
      (shop_product ''p2'' (at_time 1700000000 1000)) = Fin 0"
    by (simp add: created_at_difference_def shop_product_def n1 n2 js_sub_def)
  then show ?thesis
    by (simp add: on_products_snapshot_def js_sort_def valid_timestamp_def at_time_def
        instant_def)
qed

text \<open>
  C4, amended. When the timestamps of the documents of a snapshot are valid and of whole
  milliseconds, as \<open>Timestamp.now()\<close> writes them, the dates of the orders are written
  \<open>YYYY-MM-DD\<close> and the collation of the runtime orders such dates digit by digit, then
  whatever the state was, after the snapshot the mirror holds exactly the documents of the
  snapshot: the products and the customers in ascending order of \<open>created_at\<close>, the orders in
  descending order of \<open>date\<close> and, among equal dates, in descending order of \<open>created_at\<close>.
\<close>

theorem snapshot_replaces_sorted:
  assumes "\<forall>p \<in> set ps. millisecond_timestamp (created_at p)"
    and "\<forall>c \<in> set cs. millisecond_timestamp (created_at c)"
    and "\<forall>x \<in> set os. millisecond_timestamp (created_at x) \<and> is_date (date x)"
    and "date_collation collate"
  shows "sorted_wrt (\<lambda>a b. instant (created_at a) \<le> instant (created_at b))
        (products (on_products_snapshot ps st))
   \<and> mset (products (on_products_snapshot ps st)) = mset ps
   \<and> sorted_wrt (\<lambda>a b. instant (created_at a) \<le> instant (created_at b))
        (customers (on_customers_snapshot cs st))
   \<and> mset (customers (on_customers_snapshot cs st)) = mset cs
   \<and> sorted_wrt (\<lambda>a b. date b < date a
          \<or> (date a = date b \<and> instant (created_at b) \<le> instant (created_at a)))
        (orders (on_orders_snapshot collate os st))
   \<and> mset (orders (on_orders_snapshot collate os st)) = mset os"
  using sorted_by_created_at [OF assms(1)] sorted_by_created_at [OF assms(2)]
    sorted_by_orders_compare [OF assms(3,4)]
  by (simp add: on_products_snapshot_def on_customers_snapshot_def on_orders_snapshot_def
      mset_js_sort)

theorem snapshot_replaces_sorted_example:
  "millisecond_timestamp (at_time 1700000001 0)
   \<and> millisecond_timestamp (at_time 1700000002 5000000)
   \<and> millisecond_timestamp (at_time 1700000009 0)
   \<and> is_date ''2024-01-01'' \<and> is_date ''2024-01-02'' \<and> is_date ''2023-12-31''
   \<and> map id' (orders (on_orders_snapshot codepoint_compare
      [dated_order ''a'' ''2024-01-01'' (at_time 1700000001 0),
       dated_order ''b'' ''2024-01-02'' (at_time 1700000001 0),
       dated_order ''c'' ''2024-01-02'' (at_time 1700000002 5000000),
       dated_order ''d'' ''2023-12-31'' (at_time 1700000009 0)]
      (empty_state\<lparr>customers := [shop_customer ''c9'']\<rparr>)))
     = [''c'', ''b'', ''a'', ''d'']
   \<and> map id' (customers (on_customers_snapshot
      [(shop_customer ''c1'')\<lparr>created_at := at_time 1700000009 0\<rparr>,
       (shop_customer ''c2'')\<lparr>created_at := at_time 1700000001 0\<rparr>]
      (empty_state\<lparr>customers := [shop_customer ''c9'']\<rparr>)))
     = [''c2'', ''c1'']"
proof -
  have stamps: "millisecond_timestamp (at_time 1700000001 0)"
    "millisecond_timestamp (at_time 1700000002 5000000)"
    "millisecond_timestamp (at_time 1700000009 0)"
    by (simp_all add: millisecond_timestamp_def valid_timestamp_def at_time_def)
  have dates: "is_date ''2024-01-01''" "is_date ''2024-01-02''" "is_date ''2023-12-31''"
    by (simp_all add: is_date_def is_digit_def)
  let ?os = "[dated_order ''a'' ''2024-01-01'' (at_time 1700000001 0),
       dated_order ''b'' ''2024-01-02'' (at_time 1700000001 0),
       dated_order ''c'' ''2024-01-02'' (at_time 1700000002 5000000),
       dated_order ''d'' ''2023-12-31'' (at_time 1700000009 0)]"
  let ?cs = "[(shop_customer ''c1'')\<lparr>created_at := at_time 1700000009 0\<rparr>,
       (shop_customer ''c2'')\<lparr>created_at := at_time 1700000001 0\<rparr>]"
  let ?st = "empty_state\<lparr>customers := [shop_customer ''c9'']\<rparr>"
  have ps: "\<forall>p \<in> set ([] :: product list). millisecond_timestamp (created_at p)" by simp
  have cs: "\<forall>c \<in> set ?cs. millisecond_timestamp (created_at c)"
    using stamps by (simp add: shop_customer_def)
  have os: "\<forall>x \<in> set ?os. millisecond_timestamp (created_at x) \<and> is_date (date x)"
    using stamps dates by (simp add: dated_order_def example_order_def)
  show ?thesis
    using snapshot_replaces_sorted [OF ps cs os date_collation_codepoint, of ?st] stamps dates
    by (simp add: on_orders_snapshot_def on_customers_snapshot_def js_sort_def
        orders_compare_def codepoint_compare_def created_at_difference_def
        timestamp_difference_sign instant_def at_time_def dated_order_def example_order_def
        shop_customer_def Let_def)
qed

section \<open>Properties of the data subscription effect\<close>

text \<open>
  C8. When there is no user, the effect empties the three mirrors, sets \<open>dataLoading\<close> to
  false and subscribes to nothing.
\<close>

theorem no_user_resets_mirrors:
  assumes "user st = None"
  shows "products (fst (data_subscription_effect st)) = []
       \<and> customers (fst (data_subscription_effect st)) = []
       \<and> orders (fst (data_subscription_effect st)) = []
       \<and> dataLoading (fst (data_subscription_effect st)) = False
       \<and> snd (data_subscription_effect st) = []
       \<and> user (fst (data_subscription_effect st)) = None
       \<and> error (fst (data_subscription_effect st)) = error st"
  using assms by (simp add: data_subscription_effect_def)

theorem no_user_resets_mirrors_example:
  "user (empty_state\<lparr>orders := [example_order ''o1'' 100 80], error := Some ''e''\<rparr>) = None
   \<and> data_subscription_effect
        (empty_state\<lparr>orders := [example_order ''o1'' 100 80], error := Some ''e''\<rparr>)
      = (empty_state\<lparr>dataLoading := False, error := Some ''e''\<rparr>, [])"
  using no_user_resets_mirrors
    [of "empty_state\<lparr>orders := [example_order ''o1'' 100 80], error := Some ''e''\<rparr>"]
  by (simp add: empty_state_def data_subscription_effect_def)

section \<open>Properties of the error mapping\<close>

text \<open>
  C7, as stated, fails: an error with an unrecognized code and a message of its own is
  answered with that message, which is none of the fixed strings.
\<close>

theorem provider_message_surfaces:
  "''auth/too-many-requests'' \<notin> set recognized_codes
   \<and> handleAuthError provider_error = ''Firebase: Error (auth/too-many-requests).''
   \<and> handleAuthError provider_error \<notin> set fixed_messages"
  by (simp add: handleAuthError_def provider_error_def fixed_messages_def recognized_codes_def)

text \<open>
  C7, amended. The recognized codes are answered with one of four fixed strings. Any other
  error is answered with its own message when it has a non-empty one, and with the fixed
  generic message when its message is missing or empty.
\<close>

theorem handleAuthError_mapping:
  "(code err = Some ''auth/invalid-email'' \<longrightarrow> handleAuthError err = ''Invalid email format.'')
   \<and> (code err = Some ''auth/user-not-found'' \<or> code err = Some ''auth/wrong-password''
        \<or> code err = Some ''auth/invalid-credential'' \<longrightarrow>
        handleAuthError err = ''Invalid login credentials'')
   \<and> (code err = Some ''auth/email-already-in-use'' \<longrightarrow>
        handleAuthError err = ''An account with this email already exists.'')
   \<and> (code err = Some ''auth/weak-password'' \<longrightarrow>
        handleAuthError err = ''Password should be at least 6 characters.'')
   \<and> (code err \<notin> Some ` set recognized_codes \<and> error_message err = Some m \<and> m \<noteq> [] \<longrightarrow>
        handleAuthError err = m)
   \<and> (code err \<notin> Some ` set recognized_codes
        \<and> (error_message err = None \<or> error_message err = Some []) \<longrightarrow>
        handleAuthError err = ''An unknown error occurred.'')"
  by (auto simp: handleAuthError_def recognized_codes_def)

theorem handleAuthError_mapping_example:
  "handleAuthError \<lparr>code = Some ''auth/wrong-password'', error_message = Some ''x''\<rparr>
     = ''Invalid login credentials''
   \<and> handleAuthError provider_error = ''Firebase: Error (auth/too-many-requests).''
   \<and> handleAuthError \<lparr>code = None, error_message = Some []\<rparr> = ''An unknown error occurred.''"
  using handleAuthError_mapping
      [of "\<lparr>code = Some ''auth/wrong-password'', error_message = Some ''x''\<rparr>" "''x''"]
    handleAuthError_mapping [of provider_error "''Firebase: Error (auth/too-many-requests).''"]
    handleAuthError_mapping [of "\<lparr>code = None, error_message = Some []\<rparr>" "[]"]
  by (simp add: provider_error_def recognized_codes_def)

section \<open>Properties of the session manager\<close>

lemma handler_unverified:
  "\<not> emailVerified fu \<Longrightarrow> user (auth_state_handler be profiles (Some fu) st) = None"
  by (simp add: auth_state_handler_def)

lemma handler_signed_out:
  "user (auth_state_handler be profiles None st) = None"
  by (simp add: auth_state_handler_def)

text \<open>
  C3. The handler of the authentication state sets the user to none for an identity whose
  email is not verified. A login that signs such an identity in leaves the user at none and
  fails; when the sign-out it issues succeeds, it answers \<open>Email not confirmed\<close>, nobody
  is signed in afterwards, and the calls were the sign-in and the sign-out.
\<close>

theorem unverified_never_exposed:
  "(\<not> emailVerified fu \<longrightarrow> user (auth_state_handler be profiles (Some fu) st) = None)
   \<and> (signIn_outcome be = Inr fu \<and> \<not> emailVerified fu \<longrightarrow>
        user (app (snd (login be mail password w))) = None
        \<and> success (fst (login be mail password w)) = False
        \<and> (signOut_outcome be = None \<longrightarrow>
             fst (login be mail password w)
               = \<lparr>success = False, message = Some ''Email not confirmed''\<rparr>
             \<and> currentUser (snd (login be mail password w)) = None
             \<and> calls (snd (login be mail password w))
               = calls w @ [SignInWithEmailAndPassword mail password, SignOut]))"
  by (auto simp: login_def Let_def notify_def issue_def setAuthLoading_def failure_def
      handler_unverified handler_signed_out split: option.splits)

theorem unverified_never_exposed_example:
  "\<not> emailVerified new_user
   \<and> user (auth_state_handler (ok_backend new_user) Map.empty (Some new_user) empty_state) = None
   \<and> login (ok_backend new_user) ''asha@example.com'' ''secret'' empty_world
      = (\<lparr>success = False, message = Some ''Email not confirmed''\<rparr>,
         empty_world\<lparr>calls := [SignInWithEmailAndPassword ''asha@example.com'' ''secret'',
                                 SignOut]\<rparr>)"
  using unverified_never_exposed [of new_user "ok_backend new_user" Map.empty empty_state
      "''asha@example.com''" "''secret''" empty_world]
  by (simp add: new_user_def ok_backend_def empty_world_def empty_state_def login_def Let_def
      notify_def issue_def setAuthLoading_def failure_def auth_state_handler_def)

text \<open>
  C6, as stated, fails: a successful registration sends the verification message before it
  writes the profile, not after.
\<close>

theorem register_claimed_order_fails:
  "fst (register (ok_backend new_user) ''asha@example.com'' ''asha'' ''secret'' empty_world)
     = \<lparr>success = True, message = None\<rparr>
   \<and> calls (snd (register (ok_backend new_user) ''asha@example.com'' ''asha'' ''secret''
        empty_world))
     = [CreateUserWithEmailAndPassword ''asha@example.com'' ''secret'',
        SendEmailVerification ''u1'',
        SetDoc Profiles ''u1'' \<lparr>username = ''asha'', profile_email = ''asha@example.com'',
          profile_created_at = 1700000000\<rparr>,
        SignOut]
   \<and> calls (snd (register (ok_backend new_user) ''asha@example.com'' ''asha'' ''secret''
        empty_world))
     \<noteq> [CreateUserWithEmailAndPassword ''asha@example.com'' ''secret'',
        SetDoc Profiles ''u1'' \<lparr>username = ''asha'', profile_email = ''asha@example.com'',
          profile_created_at = 1700000000\<rparr>,
        SendEmailVerification ''u1'',
        SignOut]"
  by (simp add: register_def Let_def new_user_def ok_backend_def empty_world_def
      empty_state_def notify_def issue_def setAuthLoading_def auth_state_handler_def)

text \<open>
  C6, amended. A registration that succeeds has created the account, then sent the
  verification message, then written the profile (username, email, creation time) of the
  new identity, then signed out, in this order; it answers success without a message, the
  profile is stored, and nobody is signed in afterwards.
\<close>

theorem register_order:
  assumes "success (fst (register be mail uname password w))"
  shows "\<exists>fu. createUser_outcome be = Inr fu
       \<and> fst (register be mail uname password w) = \<lparr>success = True, message = None\<rparr>
       \<and> calls (snd (register be mail uname password w))
          = calls w @
            [CreateUserWithEmailAndPassword mail password,
             SendEmailVerification (uid fu),
             SetDoc Profiles (uid fu)
               \<lparr>username = uname, profile_email = mail,
                profile_created_at = timestamp_now be\<rparr>,
             SignOut]
       \<and> profile_docs (snd (register be mail uname password w)) (uid fu)
          = Some \<lparr>username = uname, profile_email = mail,
                  profile_created_at = timestamp_now be\<rparr>
       \<and> currentUser (snd (register be mail uname password w)) = None"
  using assms
  by (auto simp: register_def Let_def notify_def issue_def setAuthLoading_def failure_def
      split: sum.splits option.splits)

theorem register_order_example:
  "success (fst (register (ok_backend new_user) ''asha@example.com'' ''asha'' ''secret''
      empty_world))
   \<and> register (ok_backend new_user) ''asha@example.com'' ''asha'' ''secret'' empty_world
     = (\<lparr>success = True, message = None\<rparr>,
        empty_world\<lparr>
          profile_docs := [''u1'' \<mapsto> \<lparr>username = ''asha'', profile_email = ''asha@example.com'',
             profile_created_at = 1700000000\<rparr>],
          calls := [CreateUserWithEmailAndPassword ''asha@example.com'' ''secret'',
            SendEmailVerification ''u1'',
            SetDoc Profiles ''u1'' \<lparr>username = ''asha'', profile_email = ''asha@example.com'',
              profile_created_at = 1700000000\<rparr>,
            SignOut]\<rparr>)"
proof -
  have s: "success (fst (register (ok_backend new_user) ''asha@example.com'' ''asha''
      ''secret'' empty_world))"
    by (simp add: register_def Let_def new_user_def ok_backend_def)
  show ?thesis
    using register_order [OF s]
    by (simp add: register_def Let_def new_user_def ok_backend_def empty_world_def
        empty_state_def notify_def issue_def setAuthLoading_def auth_state_handler_def)
qed

text \<open>
  Every transition of the session manager keeps the state from exposing a user unless a
  verified identity is signed in; a verified identity is exposed by a login.
\<close>

lemma session_ok_notify:
  "session_ok w \<Longrightarrow> session_ok (notify be (w\<lparr>currentUser := fu\<rparr>))"
  apply (cases fu)
  apply (auto simp: session_ok_def notify_def auth_state_handler_def Let_def split: option.splits)
  done

lemma session_ok_frame [simp]:
  "session_ok (issue c w) = session_ok w"
  "session_ok (setAuthLoading b w) = session_ok w"
  "session_ok (w\<lparr>profile_docs := pd\<rparr>) = session_ok w"
  by (simp_all add: session_ok_def issue_def setAuthLoading_def split: option.splits)

lemma session_ok_login:
  "session_ok w \<Longrightarrow> session_ok (snd (login be mail password w))"
  by (auto simp: login_def Let_def session_ok_notify split: sum.splits option.splits)

lemma session_ok_register:
  "session_ok w \<Longrightarrow> session_ok (snd (register be mail uname password w))"
  by (auto simp: register_def Let_def session_ok_notify split: sum.splits option.splits)

lemma verified_login_exposes:
  "login (ok_backend verified_user) ''asha@example.com'' ''secret'' empty_world
   = (\<lparr>success = True, message = None\<rparr>,
      empty_world\<lparr>
        app := empty_state\<lparr>user := Some \<lparr>au_id = ''u1'', au_email = ''asha@example.com'',
                 au_username = ''asha@example.com''\<rparr>\<rparr>,
        currentUser := Some verified_user,
        calls := [SignInWithEmailAndPassword ''asha@example.com'' ''secret'']\<rparr>)"
  by (simp add: login_def Let_def verified_user_def ok_backend_def empty_world_def
      empty_state_def notify_def issue_def setAuthLoading_def auth_state_handler_def
      or_empty_def)

section \<open>Properties of deleting a customer\<close>

lemma delete_orders_batch:
  "foldl (\<lambda>v op. apply_write op v) w (map (\<lambda>k. Delete Daily_orders k) ks)
   = w\<lparr>order_docs := filter (\<lambda>d. id' d \<notin> set ks) (order_docs w)\<rparr>"
proof (induction ks arbitrary: w)
  case Nil
  then show ?case by simp
next
  case (Cons k ks)
  have "filter (\<lambda>d. id' d \<notin> set ks) (filter (\<lambda>d. id' d \<noteq> k) (order_docs w))
      = filter (\<lambda>d. id' d \<notin> set (k # ks)) (order_docs w)"
    by (induction "order_docs w") (auto intro: filter_cong)
  then show ?case by (simp add: Cons.IH)
qed

lemma matched_ids:
  assumes "distinct (map f xs)"
  shows "filter (\<lambda>d. f d \<notin> f ` set (filter P xs)) xs = filter (\<lambda>d. \<not> P d) xs"
proof (rule filter_cong [OF refl])
  fix d assume d: "d \<in> set xs"
  from assms have "inj_on f (set xs)" by (simp add: distinct_map)
  with d have "(f d \<in> f ` set (filter P xs)) = P d"
    by (auto dest: inj_onD)
  then show "(f d \<notin> f ` set (filter P xs)) = (\<not> P d)" by simp
qed

lemma apply_delete_customer_batch:
  "foldl (\<lambda>v op. apply_write op v) w
     (map (\<lambda>d. Delete Daily_orders (id' d)) ds @ [Delete Customers k])
   = w\<lparr>order_docs := filter (\<lambda>d. id' d \<notin> id' ` set ds) (order_docs w),
        customer_docs := filter (\<lambda>c. id' c \<noteq> k) (customer_docs w)\<rparr>"
proof -
  have "map (\<lambda>d. Delete Daily_orders (id' d)) ds = map (\<lambda>k. Delete Daily_orders k) (map id' ds)"
    by simp
  then show ?thesis
    by (simp only: foldl_append delete_orders_batch) simp
qed

text \<open>
  C2. With a user signed in and the ids of the orders distinct: when reading the orders and
  the commit both succeed, \<open>deleteCustomer\<close> removes the customer and exactly the orders of
  that user for that customer, by one commit of one batch, and nothing else; when either
  fails, it throws and the four collections are as they were.
\<close>

theorem deleteCustomer_atomic:
  assumes "user (app w) = Some u" and "distinct (map id' (order_docs w))"
  shows "(getDocs_outcome be = None \<and> commit_outcome be = None \<longrightarrow>
            fst (deleteCustomer be cid w) = Inr ()
          \<and> customer_docs (snd (deleteCustomer be cid w))
              = filter (\<lambda>c. id' c \<noteq> cid) (customer_docs w)
          \<and> order_docs (snd (deleteCustomer be cid w))
              = filter (\<lambda>d. \<not> (user_id d = au_id u \<and> customer_id d = cid)) (order_docs w)
          \<and> product_docs (snd (deleteCustomer be cid w)) = product_docs w
          \<and> profile_docs (snd (deleteCustomer be cid w)) = profile_docs w
          \<and> calls (snd (deleteCustomer be cid w))
              = calls w @
                [GetDocs (Query Daily_orders [User_id_eq (au_id u), Customer_id_eq cid]),
                 Commit (map (\<lambda>d. Delete Daily_orders (id' d))
                           (filter (\<lambda>d. user_id d = au_id u \<and> customer_id d = cid)
                              (order_docs w))
                         @ [Delete Customers cid])])
       \<and> (getDocs_outcome be \<noteq> None \<or> commit_outcome be \<noteq> None \<longrightarrow>
            isl (fst (deleteCustomer be cid w))
          \<and> customer_docs (snd (deleteCustomer be cid w)) = customer_docs w
          \<and> order_docs (snd (deleteCustomer be cid w)) = order_docs w
          \<and> product_docs (snd (deleteCustomer be cid w)) = product_docs w
          \<and> profile_docs (snd (deleteCustomer be cid w)) = profile_docs w)"
proof (intro conjI impI)
  assume ok: "getDocs_outcome be = None \<and> commit_outcome be = None"
  let ?P = "\<lambda>d. user_id d = au_id u \<and> customer_id d = cid"
  have snap: "getDocs [User_id_eq (au_id u), Customer_id_eq cid] (order_docs w)
      = filter ?P (order_docs w)"
    by (simp add: getDocs_def)
  have run: "deleteCustomer be cid w =
      (Inr (), (issue (Commit (map (\<lambda>d. Delete Daily_orders (id' d)) (filter ?P (order_docs w))
                  @ [Delete Customers cid]))
                 (issue (GetDocs (Query Daily_orders [User_id_eq (au_id u), Customer_id_eq cid])) w))
        \<lparr>order_docs := filter (\<lambda>d. id' d \<notin> id' ` set (filter ?P (order_docs w))) (order_docs w),
         customer_docs := filter (\<lambda>c. id' c \<noteq> cid) (customer_docs w)\<rparr>)"
    using assms(1) ok
    by (simp add: deleteCustomer_def Let_def commit_def apply_delete_customer_batch snap
        issue_def del: foldl_append)
  show "fst (deleteCustomer be cid w) = Inr ()" by (simp add: run)
  show "customer_docs (snd (deleteCustomer be cid w))
      = filter (\<lambda>c. id' c \<noteq> cid) (customer_docs w)" by (simp add: run)
  show "order_docs (snd (deleteCustomer be cid w)) = filter (\<lambda>d. \<not> ?P d) (order_docs w)"
    using matched_ids [OF assms(2), of ?P] by (simp add: run)
  show "product_docs (snd (deleteCustomer be cid w)) = product_docs w"
    by (simp add: run issue_def)
  show "profile_docs (snd (deleteCustomer be cid w)) = profile_docs w"
    by (simp add: run issue_def)
  show "calls (snd (deleteCustomer be cid w))
      = calls w @
        [GetDocs (Query Daily_orders [User_id_eq (au_id u), Customer_id_eq cid]),
         Commit (map (\<lambda>d. Delete Daily_orders (id' d)) (filter ?P (order_docs w))
                 @ [Delete Customers cid])]"
    by (simp add: run issue_def)
next
  assume bad: "getDocs_outcome be \<noteq> None \<or> commit_outcome be \<noteq> None"
  then have
    "isl (fst (deleteCustomer be cid w))
     \<and> customer_docs (snd (deleteCustomer be cid w)) = customer_docs w
     \<and> order_docs (snd (deleteCustomer be cid w)) = order_docs w
     \<and> product_docs (snd (deleteCustomer be cid w)) = product_docs w
     \<and> profile_docs (snd (deleteCustomer be cid w)) = profile_docs w"
    using assms(1)
    by (auto simp: deleteCustomer_def Let_def commit_def issue_def split: option.splits)
  then show "isl (fst (deleteCustomer be cid w))"
    and "customer_docs (snd (deleteCustomer be cid w)) = customer_docs w"
    and "order_docs (snd (deleteCustomer be cid w)) = order_docs w"
    and "product_docs (snd (deleteCustomer be cid w)) = product_docs w"
    and "profile_docs (snd (deleteCustomer be cid w)) = profile_docs w"
    by simp_all
qed

theorem deleteCustomer_atomic_example:
  "user (app shop_world)
     = Some \<lparr>au_id = ''u1'', au_email = ''asha@example.com'', au_username = ''asha''\<rparr>
   \<and> distinct (map id' (order_docs shop_world))
   \<and> deleteCustomer (ok_backend verified_user) ''c1'' shop_world
     = (Inr (),
        shop_world\<lparr>
          customer_docs := [shop_customer ''c2''],
          order_docs := [(example_order ''o2'' 50 50)\<lparr>customer_id := ''c2''\<rparr>,
                         (example_order ''o3'' 10 0)\<lparr>user_id := ''u2''\<rparr>],
          calls := [GetDocs (Query Daily_orders [User_id_eq ''u1'', Customer_id_eq ''c1'']),
                    Commit [Delete Daily_orders ''o1'', Delete Customers ''c1'']]\<rparr>)
   \<and> deleteCustomer ((ok_backend verified_user)\<lparr>commit_outcome := Some provider_error\<rparr>)
        ''c1'' shop_world
     = (Inl provider_error,
        shop_world\<lparr>
          calls := [GetDocs (Query Daily_orders [User_id_eq ''u1'', Customer_id_eq ''c1'']),
                    Commit [Delete Daily_orders ''o1'', Delete Customers ''c1'']]\<rparr>)"
proof -
  have u: "user (app shop_world)
     = Some \<lparr>au_id = ''u1'', au_email = ''asha@example.com'', au_username = ''asha''\<rparr>"
    by (simp add: shop_world_def)
  have d: "distinct (map id' (order_docs shop_world))"
    by (simp add: shop_world_def example_order_def)
  show ?thesis
    using u d deleteCustomer_atomic [OF u d, of "ok_backend verified_user" "''c1''"]
      deleteCustomer_atomic [OF u d,
        of "(ok_backend verified_user)\<lparr>commit_outcome := Some provider_error\<rparr>" "''c1''"]
    by (simp add: deleteCustomer_def Let_def commit_def getDocs_def issue_def shop_world_def
        empty_world_def ok_backend_def example_order_def shop_customer_def)
qed


section \<open>Properties of the product summary\<close>

text \<open>
  For every name that is not inherited from \<open>Object.prototype\<close> the summary has an entry
  exactly when a line item of today's orders has that name, the entry holds the quantities
  of these line items added one by one, whatever their product ids are, and no name has two
  entries. An inherited name never has an entry.
\<close>

lemma map_of_set_own: "map_of (set_own k v ps) = (map_of ps)(k \<mapsto> v)"
  by (induction ps) auto

lemma keys_set_own: "fst ` set (set_own k v ps) = insert k (fst ` set ps)"
  by (induction ps) auto

lemma distinct_set_own: "distinct (map fst ps) \<Longrightarrow> distinct (map fst (set_own k v ps))"
  by (induction ps) (auto simp: keys_set_own)

lemma distinct_tally_item: "distinct (map fst s) \<Longrightarrow> distinct (map fst (tally_item s i))"
  by (simp add: tally_item_def distinct_set_own split: option.splits)

lemma map_of_tally_item:
  "map_of (tally_item s i) n =
     (if product_name i = n \<and> (map_of s n \<noteq> None \<or> n \<notin> set object_prototype_keys)
      then Some (js_add (held s n) (Fin (quantity i))) else map_of s n)"
  by (auto simp: tally_item_def map_of_set_own held_def split: option.splits)

lemma distinct_tally_items:
  "distinct (map fst s) \<Longrightarrow> distinct (map fst (foldl tally_item s its))"
  by (induction its arbitrary: s) (simp_all add: distinct_tally_item)

lemma added_quantities_absent:
  "n \<notin> product_name ` set its \<Longrightarrow> added_quantities q n its = q"
  by (induction its) (auto simp: added_quantities_def)

lemma added_quantities_Cons:
  "added_quantities q n (i # its) =
     (if product_name i = n then added_quantities (js_add q (Fin (quantity i))) n its
      else added_quantities q n its)"
  by (simp add: added_quantities_def)

lemma map_of_tally_items:
  assumes "n \<notin> set object_prototype_keys"
  shows "map_of (foldl tally_item s its) n =
     (if n \<in> product_name ` set its then Some (added_quantities (held s n) n its)
      else map_of s n)"
proof (induction its arbitrary: s)
  case Nil
  then show ?case by simp
next
  case (Cons i its)
  show ?case
  proof (cases "product_name i = n")
    case True
    with assms have "map_of (tally_item s i) n = Some (js_add (held s n) (Fin (quantity i)))"
      by (simp add: map_of_tally_item)
    then show ?thesis
      using True by (simp add: Cons.IH held_def added_quantities_Cons added_quantities_absent)
  next
    case False
    then have "map_of (tally_item s i) n = map_of s n"
      by (simp add: map_of_tally_item)
    then show ?thesis
      using False by (simp add: Cons.IH held_def added_quantities_Cons)
  qed
qed

lemma map_of_tally_items_inherited:
  assumes "n \<in> set object_prototype_keys" and "map_of s n = None"
  shows "map_of (foldl tally_item s its) n = None"
  using assms(2)
proof (induction its arbitrary: s)
  case Nil
  then show ?case by simp
next
  case (Cons i its)
  from Cons.prems assms(1) have "map_of (tally_item s i) n = None"
    by (simp add: map_of_tally_item)
  then show ?case by (simp add: Cons.IH)
qed

lemma tally_orders_concat:
  "foldl (\<lambda>summary order. foldl tally_item summary (items order)) s os
   = foldl tally_item s (concat (map items os))"
  by (induction os arbitrary: s) simp_all

lemma mset_object_entries: "mset (object_entries ps) = mset ps"
  by (simp add: object_entries_def)

lemma mset_productSummary:
  "mset (productSummary today os) = mset (tally_orders (todayOrders today os))"
  by (simp add: productSummary_def mset_js_sort mset_object_entries)

lemma productSummary_distinct: "distinct (map fst (productSummary today os))"
proof -
  have "distinct (map fst (tally_orders (todayOrders today os)))"
    by (simp add: tally_orders_def tally_orders_concat distinct_tally_items)
  moreover have "mset (map fst (productSummary today os))
      = mset (map fst (tally_orders (todayOrders today os)))"
    using mset_productSummary [of today os] by (metis mset_map)
  ultimately show ?thesis
    by (metis mset_eq_imp_distinct_iff)
qed

lemma map_of_productSummary:
  "map_of (productSummary today os) = map_of (tally_orders (todayOrders today os))"
proof -
  have d: "distinct (map fst (tally_orders (todayOrders today os)))"
    by (simp add: tally_orders_def tally_orders_concat distinct_tally_items)
  have "set (productSummary today os) = set (tally_orders (todayOrders today os))"
    using mset_productSummary [of today os] by (metis set_mset_mset)
  with d productSummary_distinct [of today os] show ?thesis
    by (simp add: map_of_inject_set)
qed

lemma productSummary_lookup:
  assumes "n \<notin> set object_prototype_keys"
  shows "map_of (productSummary today os) n =
     (if n \<in> product_name ` set (today_items today os)
      then Some (added_quantities (Fin 0) n (today_items today os)) else None)"
  using map_of_tally_items [OF assms, of "[]" "today_items today os"]
  by (simp add: map_of_productSummary tally_orders_def tally_orders_concat todayOrders_def
      today_items_def held_def)

lemma productSummary_inherited:
  assumes "n \<in> set object_prototype_keys"
  shows "map_of (productSummary today os) n = None"
  using map_of_tally_items_inherited [OF assms, of "[]"]
  by (simp add: map_of_productSummary tally_orders_def tally_orders_concat)

text \<open>
  C5 fails on the code for a product whose name is the name of a property every object
  inherits: the line item of 2 units of \<open>constructor\<close> is in today's order, and the summary
  has no entry for it.
\<close>

theorem productSummary_drops_inherited_name:
  "quantity_of_name ''constructor'' (today_items ''2024-01-01'' inherited_name_orders) = 2
   \<and> productSummary ''2024-01-01'' inherited_name_orders = [(''milk'', Fin 1)]
   \<and> map_of (productSummary ''2024-01-01'' inherited_name_orders) ''constructor'' = None"
  by (simp add: inherited_name_orders_def productSummary_def tally_orders_def todayOrders_def
      example_order_def tally_item_def line_item_def object_prototype_keys_def
      object_entries_def js_sort_def quantity_of_name_def today_items_def is_array_index_def
      is_digit_def round_double_numeral)

text \<open>
  C10 fails on the code in the same way: two line items of different products, both named
  \<open>toString\<close>, with 2 and 3 units, are not merged into an entry; the summary is empty.
\<close>

theorem productSummary_no_merged_entry:
  "quantity_of_name ''toString'' (today_items ''2024-01-01'' shared_name_orders) = 5
   \<and> productSummary ''2024-01-01'' shared_name_orders = []"
  by (simp add: shared_name_orders_def productSummary_def tally_orders_def todayOrders_def
      example_order_def tally_item_def line_item_def object_prototype_keys_def
      object_entries_def js_sort_def quantity_of_name_def today_items_def is_array_index_def
      is_digit_def)

end
